theory Spec2Isabelle
  imports Complex_Main
begin

section \<open>Double-precision arithmetic\<close>

text \<open>
  JavaScript numbers are doubles, and every arithmetic operation rounds its exact result to
  the nearest double, a tie going to the even significand. \<open>to_double\<close> is this rounding
  with the exponent left unbounded: the magnitude is scaled by powers of two until it lies
  in \<open>[2^52, 2^53)\<close>, rounded to an integer there, and scaled back. The two ends of the
  range, overflow to \<open>Infinity\<close> and the subnormals, are added by \<open>double_of\<close> below.
\<close>

definition round_even :: "real \<Rightarrow> int" where
  "round_even x =
     (let f = \<lfloor>x\<rfloor>; d = x - of_int f
      in if d < 1 / 2 then f else if 1 / 2 < d then f + 1 else if even f then f else f + 1)"

function norm_down :: "real \<Rightarrow> int \<Rightarrow> real \<times> int" where
  "norm_down m e = (if 2 ^ 53 \<le> m then norm_down (m / 2) (e + 1) else (m, e))"
  by pat_completeness auto
termination
proof (relation "measure (\<lambda>(m, e). nat \<lceil>m\<rceil>)")
  show "wf (measure (\<lambda>(m, e). nat \<lceil>m\<rceil>))" by simp
next
  fix m :: real and e :: int
  assume big: "2 ^ 53 \<le> m"
  then have "m / 2 \<le> m - 1" by simp
  then have "\<lceil>m / 2\<rceil> \<le> \<lceil>m - 1\<rceil>" by (rule ceiling_mono)
  moreover have "0 < \<lceil>m\<rceil>" using big by (simp add: ceiling_less_iff less_ceiling_iff)
  ultimately show "((m / 2, e + 1), (m, e)) \<in> measure (\<lambda>(m, e). nat \<lceil>m\<rceil>)"
    by simp
qed

function norm_up :: "real \<Rightarrow> int \<Rightarrow> real \<times> int" where
  "norm_up m e = (if 0 < m \<and> m < 2 ^ 52 then norm_up (m * 2) (e - 1) else (m, e))"
  by pat_completeness auto
termination
proof (relation "measure (\<lambda>(m, e). nat \<lceil>2 ^ 52 / m\<rceil>)")
  show "wf (measure (\<lambda>(m, e). nat \<lceil>2 ^ 52 / m\<rceil>))" by simp
next
  fix m :: real and e :: int
  assume small: "0 < m \<and> m < 2 ^ 52"
  define x where "x = 2 ^ 52 / m"
  from small have x1: "1 < x" by (simp add: x_def)
  have half: "2 ^ 52 / (m * 2) = x / 2" by (simp add: x_def)
  have "\<lceil>x / 2\<rceil> < \<lceil>x\<rceil>"
  proof (cases "2 \<le> x")
    case True
    then have "x / 2 \<le> x - 1" by simp
    then have "\<lceil>x / 2\<rceil> \<le> \<lceil>x - 1\<rceil>" by (rule ceiling_mono)
    moreover have "\<lceil>x - 1\<rceil> = \<lceil>x\<rceil> - 1" by simp
    ultimately show ?thesis by linarith
  next
    case False
    then have "x / 2 \<le> 1" by simp
    then have "\<lceil>x / 2\<rceil> \<le> 1" by (simp add: ceiling_le_iff)
    moreover from x1 have "1 < \<lceil>x\<rceil>" by (simp add: less_ceiling_iff)
    ultimately show ?thesis by linarith
  qed
  then have lt: "\<lceil>2 ^ 52 / (m * 2)\<rceil> < \<lceil>2 ^ 52 / m\<rceil>"
    by (simp only: half x_def [symmetric])
  from x1 have "0 < \<lceil>x\<rceil>" by (simp add: less_ceiling_iff)
  then have pos: "0 < \<lceil>2 ^ 52 / m\<rceil>" by (simp only: x_def)
  from lt pos show "((m * 2, e - 1), (m, e)) \<in> measure (\<lambda>(m, e). nat \<lceil>2 ^ 52 / m\<rceil>)"
    by simp
qed

declare norm_down.simps [simp del] norm_up.simps [simp del]

definition pow2 :: "int \<Rightarrow> real" where
  "pow2 e = (if 0 \<le> e then 2 ^ nat e else 1 / 2 ^ nat (- e))"

definition to_double :: "real \<Rightarrow> real" where
  "to_double x =
     (if x = 0 then 0
      else
        (let (m1, e1) = norm_down \<bar>x\<bar> 0;
             (m, e) = norm_up m1 e1
         in sgn x * of_int (round_even m) * pow2 e))"


section \<open>JavaScript values used by the ingestion code\<close>

text \<open>
  Numbers are JavaScript numbers with their three non-finite values kept apart; a finite one
  is the real number the double stands for (the sign of zero is not represented).
\<close>

datatype jsnum = NaN | Fin real | PosInf | NegInf

text \<open>
  The double for an exact result, over the whole range: below \<open>2^-1022\<close> the doubles are the
  multiples of \<open>2^-1074\<close>, and a result that rounds to \<open>2^1024\<close> or beyond is an infinity.
\<close>

definition double_of :: "real \<Rightarrow> jsnum" where
  "double_of x =
     (let y = (if \<bar>x\<bar> < 1 / 2 ^ 1022
               then sgn x * of_int (round_even (\<bar>x\<bar> * 2 ^ 1074)) / 2 ^ 1074
               else to_double x)
      in if 2 ^ 1024 \<le> y then PosInf else if y \<le> - (2 ^ 1024) then NegInf else Fin y)"

text \<open>The relational operators on numbers: every comparison with NaN is false.\<close>

fun js_lt :: "jsnum \<Rightarrow> jsnum \<Rightarrow> bool" where
  "js_lt NaN _ = False"
| "js_lt _ NaN = False"
| "js_lt (Fin a) (Fin b) = (a < b)"
| "js_lt (Fin a) PosInf = True"
| "js_lt (Fin a) NegInf = False"
| "js_lt PosInf _ = False"
| "js_lt NegInf NegInf = False"
| "js_lt NegInf _ = True"

definition js_gt :: "jsnum \<Rightarrow> jsnum \<Rightarrow> bool" where
  "js_gt a b = js_lt b a"

text \<open>
  The operator \<open>/\<close>: the quotient of two finite numbers is rounded to a double; a zero
  divisor is taken as \<open>+0\<close>.
\<close>

fun js_div :: "jsnum \<Rightarrow> jsnum \<Rightarrow> jsnum" where
  "js_div NaN _ = NaN"
| "js_div _ NaN = NaN"
| "js_div (Fin a) (Fin b) =
     (if b \<noteq> 0 then double_of (a / b)
      else if a = 0 then NaN else if 0 < a then PosInf else NegInf)"
| "js_div (Fin a) PosInf = Fin 0"
| "js_div (Fin a) NegInf = Fin 0"
| "js_div PosInf (Fin b) = (if 0 \<le> b then PosInf else NegInf)"
| "js_div NegInf (Fin b) = (if 0 \<le> b then NegInf else PosInf)"
| "js_div PosInf _ = NaN"
| "js_div NegInf _ = NaN"

text \<open>
  \<open>Math.round\<close>: the nearest integer, a tie going towards \<open>+\<infinity>\<close>; the result is
  exact.
\<close>

fun math_round :: "jsnum \<Rightarrow> jsnum" where
  "math_round (Fin x) = Fin (of_int \<lfloor>x + 1 / 2\<rfloor>)"
| "math_round n = n"

text \<open>
  A field of a decoded JSON record. Arrays and nested objects do not occur in the fields the
  normalizer reads and are left out.
\<close>

datatype jsval = JUndefined | JNull | JBool bool | JNum jsnum | JStr string

text \<open>Truthiness, as tested by \<open>!x\<close> and \<open>x || y\<close>.\<close>

fun truthy :: "jsval \<Rightarrow> bool" where
  "truthy JUndefined = False"
| "truthy JNull = False"
| "truthy (JBool b) = b"
| "truthy (JNum NaN) = False"
| "truthy (JNum (Fin x)) = (x \<noteq> 0)"
| "truthy (JNum _) = True"
| "truthy (JStr s) = (s \<noteq> [])"

subsection \<open>parseFloat\<close>

definition is_digit :: "char \<Rightarrow> bool" where
  "is_digit c = (c \<in> set ''0123456789'')"

text \<open>
  Strings are written as their UTF-8 bytes. \<open>parseFloat\<close> skips leading white space and
  line terminators: TAB, LF, VT, FF, CR, SPACE, and the code points U+00A0, U+1680,
  U+2000 to U+200A, U+2028, U+2029, U+202F, U+205F, U+3000 and U+FEFF.
\<close>

definition white_space :: "string list" where
  "white_space =
     [[CHR 0x09], [CHR 0x0A], [CHR 0x0B], [CHR 0x0C], [CHR 0x0D], [CHR 0x20],
      [CHR 0xC2, CHR 0xA0],
      [CHR 0xE1, CHR 0x9A, CHR 0x80],
      [CHR 0xE2, CHR 0x80, CHR 0x80], [CHR 0xE2, CHR 0x80, CHR 0x81],
      [CHR 0xE2, CHR 0x80, CHR 0x82], [CHR 0xE2, CHR 0x80, CHR 0x83],
      [CHR 0xE2, CHR 0x80, CHR 0x84], [CHR 0xE2, CHR 0x80, CHR 0x85],
      [CHR 0xE2, CHR 0x80, CHR 0x86], [CHR 0xE2, CHR 0x80, CHR 0x87],
      [CHR 0xE2, CHR 0x80, CHR 0x88], [CHR 0xE2, CHR 0x80, CHR 0x89],
      [CHR 0xE2, CHR 0x80, CHR 0x8A],
      [CHR 0xE2, CHR 0x80, CHR 0xA8], [CHR 0xE2, CHR 0x80, CHR 0xA9],
      [CHR 0xE2, CHR 0x80, CHR 0xAF],
      [CHR 0xE2, CHR 0x81, CHR 0x9F],
      [CHR 0xE3, CHR 0x80, CHR 0x80],
      [CHR 0xEF, CHR 0xBB, CHR 0xBF]]"

text \<open>The number of bytes of a white-space character at the head of a string, or 0.\<close>

definition ws_width :: "string \<Rightarrow> nat" where
  "ws_width s =
     (case find (\<lambda>w. take (length w) s = w) white_space of
        None \<Rightarrow> 0
      | Some w \<Rightarrow> length w)"

function strip_ws :: "string \<Rightarrow> string" where
  "strip_ws s = (if ws_width s = 0 then s else strip_ws (drop (ws_width s) s))"
  by pat_completeness auto
termination
proof (relation "measure length")
  show "wf (measure length)" by simp
next
  fix s :: string
  assume w: "ws_width s \<noteq> 0"
  then obtain u where u: "find (\<lambda>w. take (length w) s = w) white_space = Some u"
    by (auto simp: ws_width_def split: option.splits)
  then have "u \<in> set white_space" and t: "take (length u) s = u"
    by (auto simp: find_Some_iff)
  then have "u \<noteq> []" by (auto simp: white_space_def)
  with t have "s \<noteq> []" by auto
  with w show "(drop (ws_width s) s, s) \<in> measure length" by simp
qed

declare strip_ws.simps [simp del]

definition digit_val :: "char \<Rightarrow> nat" where
  "digit_val c = of_char c - 48"

text \<open>The value of a run of decimal digits, most significant first.\<close>

fun digits_nat :: "nat \<Rightarrow> string \<Rightarrow> nat" where
  "digits_nat acc [] = acc"
| "digits_nat acc (c # cs) = digits_nat (acc * 10 + digit_val c) cs"

text \<open>The value of the digits after the decimal point.\<close>

fun frac_val :: "string \<Rightarrow> real" where
  "frac_val [] = 0"
| "frac_val (c # cs) = (of_nat (digit_val c) + frac_val cs) / 10"

text \<open>An exponent part \<open>e[+-]digits\<close> at the head of the rest, if there is a complete one.\<close>

definition exponent_part :: "string \<Rightarrow> int" where
  "exponent_part r =
     (case r of
        [] \<Rightarrow> 0
      | c # r1 \<Rightarrow>
          if c = CHR ''e'' \<or> c = CHR ''E'' then
            (let neg = (r1 \<noteq> [] \<and> hd r1 = CHR ''-'');
                 r2 = (if r1 \<noteq> [] \<and> (hd r1 = CHR ''-'' \<or> hd r1 = CHR ''+'')
                       then tl r1 else r1);
                 ds = takeWhile is_digit r2
             in if ds = [] then 0
                else if neg then - int (digits_nat 0 ds) else int (digits_nat 0 ds))
          else 0)"

definition scale10 :: "real \<Rightarrow> int \<Rightarrow> real" where
  "scale10 x e = (if 0 \<le> e then x * 10 ^ nat e else x / 10 ^ nat (- e))"

text \<open>
  \<open>parseFloat\<close> on a string: leading white space is skipped, then the longest prefix that
  is a decimal literal is read and its value rounded to a double (an infinity when it is too
  large); with no such prefix the result is NaN.
\<close>

definition parse_float_str :: "string \<Rightarrow> jsnum" where
  "parse_float_str s =
     (let s1 = strip_ws s;
          neg = (s1 \<noteq> [] \<and> hd s1 = CHR ''-'');
          s2 = (if s1 \<noteq> [] \<and> (hd s1 = CHR ''-'' \<or> hd s1 = CHR ''+'') then tl s1 else s1)
      in if take 8 s2 = ''Infinity'' then (if neg then NegInf else PosInf)
         else
           (let ip = takeWhile is_digit s2;
                r1 = dropWhile is_digit s2;
                dot = (r1 \<noteq> [] \<and> hd r1 = CHR ''.'');
                fp = (if dot then takeWhile is_digit (tl r1) else []);
                r2 = (if dot then dropWhile is_digit (tl r1) else r1)
            in if ip = [] \<and> fp = [] then NaN
               else
                 (let v = scale10 (of_nat (digits_nat 0 ip) + frac_val fp) (exponent_part r2)
                  in double_of (if neg then - v else v))))"

text \<open>
  \<open>parseFloat\<close> converts its argument to a string first: a number reads back as itself,
  \<open>undefined\<close>, \<open>null\<close> and the booleans give NaN.
\<close>

fun parseFloat :: "jsval \<Rightarrow> jsnum" where
  "parseFloat (JStr s) = parse_float_str s"
| "parseFloat (JNum n) = n"
| "parseFloat _ = NaN"

subsection \<open>Property lookup in an object literal\<close>

text \<open>
  \<open>obj[key]\<close> on an object literal whose own values are strings: an own key gives its
  string, a name inherited from \<open>Object.prototype\<close> gives that member (not a string, and
  truthy), any other key gives \<open>undefined\<close>. An absent key is looked up as the string
  \<open>undefined\<close>.
\<close>

definition object_prototype_keys :: "string list" where
  "object_prototype_keys =
     [''constructor'', ''__proto__'', ''hasOwnProperty'', ''isPrototypeOf'',
      ''propertyIsEnumerable'', ''toLocaleString'', ''toString'', ''valueOf'',
      ''__defineGetter__'', ''__defineSetter__'', ''__lookupGetter__'', ''__lookupSetter__'']"

datatype jsprop = PStr string | PInherited string

definition obj_get :: "(string \<times> string) list \<Rightarrow> string option \<Rightarrow> jsprop option" where
  "obj_get tbl k =
     (let key = (case k of None \<Rightarrow> ''undefined'' | Some s \<Rightarrow> s)
      in case map_of tbl key of
           Some v \<Rightarrow> Some (PStr v)
         | None \<Rightarrow> if key \<in> set object_prototype_keys then Some (PInherited key) else None)"

text \<open>\<open>v || d\<close> for the result of such a lookup.\<close>

fun or_default :: "jsprop option \<Rightarrow> string \<Rightarrow> jsprop" where
  "or_default None d = PStr d"
| "or_default (Some (PStr s)) d = (if s = [] then PStr d else PStr s)"
| "or_default (Some (PInherited k)) d = PInherited k"

text \<open>\<open>s || null\<close> for an optional string field.\<close>

definition or_null :: "string option \<Rightarrow> string option" where
  "or_null s = (case s of None \<Rightarrow> None | Some t \<Rightarrow> if t = [] then None else Some t)"

subsection \<open>Decimal rendering of a timestamp\<close>

definition digit_char :: "nat \<Rightarrow> char" where
  "digit_char d = ''0123456789'' ! d"

function show_nat :: "nat \<Rightarrow> string" where
  "show_nat n = (if n < 10 then [digit_char n] else show_nat (n div 10) @ [digit_char (n mod 10)])"
  by pat_completeness auto
termination
  by (relation "measure id") auto

declare show_nat.simps [simp del]


section \<open>The DVF normalizer\<close>

text \<open>
  One element of \<open>resultats\<close> in a DVF response. The two amounts and the coordinates are
  arbitrary JSON scalars, since the code passes them through \<open>parseFloat\<close>; the textual
  fields are strings or absent. The coordinates carry the suffix \<open>_raw\<close> to keep them apart
  from the fields of the produced entity.
\<close>

record mutation =
  id_mutation :: "string option"
  valeur_fonciere :: jsval
  surface_reelle_bati :: jsval
  type_local :: "string option"
  commune :: "string option"
  code_postal :: "string option"
  code_departement :: "string option"
  latitude_raw :: jsval
  longitude_raw :: jsval

text \<open>
  What one call reads from its surroundings: the clock (\<open>Date.now()\<close>, \<open>new Date()\<close>, in
  milliseconds) and the string \<open>Math.random().toString(36)\<close>.
\<close>

record env =
  date_now :: nat
  random36 :: string

text \<open>
  The entity handed to the store. The free-text fields \<open>title\<close> and \<open>description\<close>, the
  room count and \<open>publishedAt\<close> are formatting of the same inputs and are not represented.
\<close>

record property =
  externalId :: string
  source :: string
  price :: jsnum
  pricePerSqm :: jsnum
  surface :: jsnum
  bedrooms :: "nat option"
  propertyType :: jsprop
  transactionType :: string
  city :: "string option"
  postalCode :: "string option"
  department :: "string option"
  region :: jsprop
  latitude :: "jsnum option"
  longitude :: "jsnum option"
  imageUrls :: string
  url :: string
  scrapedAt :: nat

definition TYPE_LOCAL_MAP :: "(string \<times> string) list" where
  "TYPE_LOCAL_MAP =
     [(''Appartement'', ''appartement''),
      (''Maison'', ''maison''),
      (''D'' @ [CHR 0xC3, CHR 0xA9] @ ''pendance'', ''dependance''),
      (''Local industriel. commercial ou assimil'' @ [CHR 0xC3, CHR 0xA9], ''local_commercial'')]"

definition ile_de_france :: string where
  "ile_de_france = [CHR 0xC3, CHR 0x8E] @ ''le-de-France''"

definition auvergne_rhone_alpes :: string where
  "auvergne_rhone_alpes = ''Auvergne-Rh'' @ [CHR 0xC3, CHR 0xB4] @ ''ne-Alpes''"

definition provence_alpes_cote_d_azur :: string where
  "provence_alpes_cote_d_azur =
     ''Provence-Alpes-C'' @ [CHR 0xC3, CHR 0xB4] @ ''te d'' @ [CHR 0x27] @ ''Azur''"

definition regions :: "(string \<times> string) list" where
  "regions =
     [(''75'', ile_de_france), (''92'', ile_de_france), (''93'', ile_de_france),
      (''94'', ile_de_france), (''91'', ile_de_france), (''77'', ile_de_france),
      (''78'', ile_de_france), (''95'', ile_de_france),
      (''69'', auvergne_rhone_alpes),
      (''13'', provence_alpes_cote_d_azur), (''06'', provence_alpes_cote_d_azur),
      (''33'', ''Nouvelle-Aquitaine''),
      (''31'', ''Occitanie''),
      (''44'', ''Pays de la Loire'')]"

definition getRegionFromDepartement :: "string option \<Rightarrow> jsprop" where
  "getRegionFromDepartement dep = or_default (obj_get regions dep) ''France''"

text \<open>\<open>${id_mutation || Date.now()}\<close>: the source's identifier unless it is absent or empty.\<close>

definition id_or_now :: "env \<Rightarrow> mutation \<Rightarrow> string" where
  "id_or_now e m =
     (case id_mutation m of
        None \<Rightarrow> show_nat (date_now e)
      | Some s \<Rightarrow> if s = [] then show_nat (date_now e) else s)"

text \<open>\<open>.substr(2, 9)\<close>: at most nine characters from index 2 on.\<close>

definition substr_2_9 :: "string \<Rightarrow> string" where
  "substr_2_9 s = take 9 (drop 2 s)"

definition optional_float :: "jsval \<Rightarrow> jsnum option" where
  "optional_float v = (if truthy v then Some (parseFloat v) else None)"

definition mutationToProperty :: "env \<Rightarrow> mutation \<Rightarrow> property option" where
  "mutationToProperty e m =
     (if \<not> truthy (valeur_fonciere m) \<or> \<not> truthy (surface_reelle_bati m) then None
      else
        (let price = parseFloat (valeur_fonciere m);
             surface = parseFloat (surface_reelle_bati m)
         in if js_lt price (Fin 10000) \<or> js_gt price (Fin 50000000)
               \<or> js_lt surface (Fin 9) \<or> js_gt surface (Fin 1000)
            then None
            else
              (let propertyType = or_default (obj_get TYPE_LOCAL_MAP (type_local m)) ''autre'';
                   pricePerSqm = math_round (js_div price surface)
               in Some
                    \<lparr>externalId = ''DVF_'' @ id_or_now e m @ ''_'' @ substr_2_9 (random36 e),
                     source = ''dvf_gouv'',
                     price = price,
                     pricePerSqm = pricePerSqm,
                     surface = surface,
                     bedrooms = None,
                     propertyType = propertyType,
                     transactionType = ''vente'',
                     city = or_null (commune m),
                     postalCode = or_null (code_postal m),
                     department = or_null (code_departement m),
                     region = getRegionFromDepartement (code_departement m),
                     latitude = optional_float (latitude_raw m),
                     longitude = optional_float (longitude_raw m),
                     imageUrls = ''[]'',
                     url = ''https://app.dvf.etalab.gouv.fr/'',
                     scrapedAt = date_now e\<rparr>)))"



section \<open>The ingestion pipeline\<close>

subsection \<open>The store and the upsert\<close>

text \<open>
  A stored row is the entity together with the \<open>updatedAt\<close> the code supplied, if it supplied
  one. The store keeps its rows in insertion order.
\<close>

type_synonym row = "property \<times> nat option"

type_synonym store = "row list"

text \<open>The argument of \<open>prisma.property.upsert\<close>.\<close>

record upsert_args =
  where_externalId :: string
  update_data :: "property \<times> nat"
  create_data :: property

text \<open>
  A successful upsert: the rows with the key are replaced by the update data, and a store
  without the key gets the create data as a new row.
\<close>

definition has_key :: "store \<Rightarrow> string \<Rightarrow> bool" where
  "has_key st k = (k \<in> set (map (\<lambda>r. externalId (fst r)) st))"

definition prisma_upsert :: "store \<Rightarrow> upsert_args \<Rightarrow> store" where
  "prisma_upsert st a =
     (if has_key st (where_externalId a)
      then map (\<lambda>r. if externalId (fst r) = where_externalId a
                      then (fst (update_data a), Some (snd (update_data a))) else r) st
      else st @ [(create_data a, None)])"

text \<open>
  The database as the pipeline sees it: an upsert either yields the new store or throws
  (\<open>None\<close>), leaving the store as it was. A database decides this as it likes.
\<close>

type_synonym db_port = "store \<Rightarrow> upsert_args \<Rightarrow> store option"

definition reliable_db :: db_port where
  "reliable_db st a = Some (prisma_upsert st a)"

record save_result =
  saved :: nat
  errors :: nat

text \<open>
  The state of the loop of \<open>saveProperties\<close>: the two counters, the store, and the upsert
  calls issued so far.
\<close>

record save_state =
  counts :: save_result
  db_store :: store
  upserts :: "upsert_args list"

definition upsert_call :: "nat \<Rightarrow> property \<Rightarrow> upsert_args" where
  "upsert_call t prop =
     \<lparr>where_externalId = externalId prop, update_data = (prop, t), create_data = prop\<rparr>"

text \<open>One iteration: the \<open>try\<close> block counts a success, the \<open>catch\<close> block a failure.\<close>

definition save_one ::
  "db_port \<Rightarrow> nat \<Rightarrow> property \<Rightarrow> save_state \<Rightarrow> save_state" where
  "save_one db t prop s =
     (let a = upsert_call t prop
      in case db (db_store s) a of
           Some st' \<Rightarrow>
             s\<lparr>counts := (counts s)\<lparr>saved := saved (counts s) + 1\<rparr>,
               db_store := st', upserts := upserts s @ [a]\<rparr>
         | None \<Rightarrow>
             s\<lparr>counts := (counts s)\<lparr>errors := errors (counts s) + 1\<rparr>,
               upserts := upserts s @ [a]\<rparr>)"

text \<open>The loop; \<open>clock k\<close> is the time read by the \<open>k\<close>-th iteration.\<close>

fun save_loop ::
  "db_port \<Rightarrow> (nat \<Rightarrow> nat) \<Rightarrow> nat \<Rightarrow> property list \<Rightarrow> save_state \<Rightarrow> save_state" where
  "save_loop db clock k [] s = s"
| "save_loop db clock k (prop # rest) s = save_loop db clock (Suc k) rest (save_one db (clock k) prop s)"

definition saveProperties ::
  "db_port \<Rightarrow> (nat \<Rightarrow> nat) \<Rightarrow> store \<Rightarrow> property list \<Rightarrow> save_state" where
  "saveProperties db clock st properties =
     save_loop db clock 0 properties
       \<lparr>counts = \<lparr>saved = 0, errors = 0\<rparr>, db_store = st, upserts = []\<rparr>"

subsection \<open>What the loop is to achieve\<close>

text \<open>
  The calls the loop is to issue: one for each entity, in order, the \<open>i\<close>-th with the time
  read by the \<open>i\<close>-th iteration.
\<close>

definition expected_calls :: "(nat \<Rightarrow> nat) \<Rightarrow> property list \<Rightarrow> upsert_args list" where
  "expected_calls clock properties =
     map (\<lambda>(i, prop). upsert_call (clock i) prop) (zip [0 ..< length properties] properties)"

text \<open>
  The store after a sequence of calls, each applied to what the calls before it left: a call
  that throws leaves the store as it was and the next one is still made. And the number of
  calls in the sequence that do not throw.
\<close>

fun store_after :: "db_port \<Rightarrow> store \<Rightarrow> upsert_args list \<Rightarrow> store" where
  "store_after db st [] = st"
| "store_after db st (a # rest) =
     (case db st a of
        Some st' \<Rightarrow> store_after db st' rest
      | None \<Rightarrow> store_after db st rest)"

fun successes :: "db_port \<Rightarrow> store \<Rightarrow> upsert_args list \<Rightarrow> nat" where
  "successes db st [] = 0"
| "successes db st (a # rest) =
     (case db st a of
        Some st' \<Rightarrow> Suc (successes db st' rest)
      | None \<Rightarrow> successes db st rest)"

subsection \<open>Fetching and the full run\<close>

definition DEPARTEMENTS :: "string list" where
  "DEPARTEMENTS = [''75'', ''92'', ''93'', ''94'', ''69'', ''13'', ''33'', ''31'', ''44'', ''06'']"

definition annees :: "nat list" where
  "annees = [2023, 2022]"

text \<open>
  What \<open>httpClient.get\<close> does for one department and year: it throws (network error,
  timeout, error status), or it answers, with \<open>resultats\<close> missing or a list of records.
\<close>

datatype http_result = HttpError | HttpOk "mutation list option"

definition scrapeDepartement ::
  "(string \<Rightarrow> nat \<Rightarrow> http_result) \<Rightarrow> string \<Rightarrow> nat \<Rightarrow> mutation list" where
  "scrapeDepartement http codeDepartement annee =
     (case http codeDepartement annee of
        HttpError \<Rightarrow> []
      | HttpOk None \<Rightarrow> []
      | HttpOk (Some mutations) \<Rightarrow> mutations)"


text \<open>
  The surroundings of one run: the answers of the DVF service, the clock and random draw
  read by the \<open>k\<close>-th call of the normalizer, the clock of the \<open>k\<close>-th upsert, the database,
  and the time at which the summary is built.
\<close>

record run_env =
  http_get :: "string \<Rightarrow> nat \<Rightarrow> http_result"
  call_env :: "nat \<Rightarrow> env"
  save_clock :: "nat \<Rightarrow> nat"
  database :: db_port
  end_time :: nat

text \<open>
  \<open>mutations.map(m => this.mutationToProperty(m)).filter(p => p !== null)\<close>, the calls
  numbered from \<open>k\<close>.
\<close>

definition normalize_batch ::
  "(nat \<Rightarrow> env) \<Rightarrow> nat \<Rightarrow> mutation list \<Rightarrow> property list" where
  "normalize_batch envs k mutations =
     map the (filter (\<lambda>p. p \<noteq> None)
       (map (\<lambda>(i, m). mutationToProperty (envs i) m) (zip [k ..< k + length mutations] mutations)))"

text \<open>
  The state of the two nested loops of \<open>scrapeAll\<close>. The pause after each partition only
  takes time and is not represented.
\<close>

record scrape_state =
  totalProperties :: "property list"
  fetches :: "(string \<times> nat) list"
  normalizer_calls :: nat

definition scrape_partition ::
  "run_env \<Rightarrow> nat \<Rightarrow> string \<Rightarrow> scrape_state \<Rightarrow> scrape_state" where
  "scrape_partition w annee dep s =
     (let mutations = scrapeDepartement (http_get w) dep annee;
          properties = normalize_batch (call_env w) (normalizer_calls s) mutations
      in \<lparr>totalProperties = totalProperties s @ properties,
          fetches = fetches s @ [(dep, annee)],
          normalizer_calls = normalizer_calls s + length mutations\<rparr>)"

definition scrape_year :: "run_env \<Rightarrow> nat \<Rightarrow> scrape_state \<Rightarrow> scrape_state" where
  "scrape_year w annee s = foldl (\<lambda>acc dep. scrape_partition w annee dep acc) s DEPARTEMENTS"

definition scrape_loops :: "run_env \<Rightarrow> scrape_state" where
  "scrape_loops w =
     foldl (\<lambda>acc annee. scrape_year w annee acc)
       \<lparr>totalProperties = [], fetches = [], normalizer_calls = 0\<rparr> annees"

record summary = save_result +
  total :: nat
  summary_scrapedAt :: nat

record scrape_outcome =
  result :: summary
  final_store :: store
  fetched_partitions :: "(string \<times> nat) list"
  issued_upserts :: "upsert_args list"

definition scrapeAll :: "run_env \<Rightarrow> store \<Rightarrow> scrape_outcome" where
  "scrapeAll w st =
     (let s = scrape_loops w;
          r = saveProperties (database w) (save_clock w) st (totalProperties s)
      in \<lparr>result =
            \<lparr>saved = saved (counts r), errors = errors (counts r),
             total = length (totalProperties s), summary_scrapedAt = end_time w\<rparr>,
          final_store = db_store r,
          fetched_partitions = fetches s,
          issued_upserts = upserts r\<rparr>)"


section \<open>The scheduler\<close>

record scheduler =
  isRunning :: bool
  lastRun :: "nat option"
  lastResult :: "summary option"
  jobs :: nat

definition new_scheduler :: scheduler where
  "new_scheduler = \<lparr>isRunning = False, lastRun = None, lastResult = None, jobs = 0\<rparr>"

text \<open>What \<open>await dvfScraper.scrapeAll()\<close> yields: the promise rejects or resolves.\<close>

datatype scrape_promise = Rejected string | Resolved summary

text \<open>
  \<open>runScraping\<close> has one \<open>await\<close>, so it runs in two uninterrupted parts. The first is the
  guard: with a run in progress it returns \<open>null\<close> at once (\<open>None\<close> here), otherwise it sets
  the flag and starts the pipeline.
\<close>

definition runScraping_enter :: "scheduler \<Rightarrow> scheduler option" where
  "runScraping_enter s = (if isRunning s then None else Some (s\<lparr>isRunning := True\<rparr>))"

text \<open>
  The second part runs when the pipeline has settled: the \<open>try\<close> branch records the run,
  the \<open>catch\<close> branch returns \<open>null\<close>, and \<open>finally\<close> clears the flag in both.
\<close>

definition runScraping_settle ::
  "nat \<Rightarrow> scrape_promise \<Rightarrow> scheduler \<Rightarrow> scheduler \<times> summary option" where
  "runScraping_settle now r s =
     (case r of
        Resolved res \<Rightarrow> (s\<lparr>lastRun := Some now, lastResult := Some res, isRunning := False\<rparr>, Some res)
      | Rejected msg \<Rightarrow> (s\<lparr>isRunning := False\<rparr>, None))"

text \<open>The whole call, when nothing else runs in between.\<close>

definition runScraping ::
  "nat \<Rightarrow> scrape_promise \<Rightarrow> scheduler \<Rightarrow> scheduler \<times> summary option" where
  "runScraping now r s =
     (case runScraping_enter s of
        None \<Rightarrow> (s, None)
      | Some s1 \<Rightarrow> runScraping_settle now r s1)"

text \<open>
  \<open>getNextRun\<close>, from the hour of the day: whether the next run is tomorrow, and its hour.
\<close>

definition getNextRun :: "nat \<Rightarrow> bool \<times> nat" where
  "getNextRun hours =
     (let nextHour = ((hours + 1 + 5) div 6) * 6
      in if nextHour \<ge> 24 then (True, 0) else (False, nextHour))"

record status =
  status_isRunning :: bool
  status_lastRun :: "nat option"
  status_lastResult :: "summary option"
  nextRun :: "bool \<times> nat"
  status_jobs :: nat

definition getStatus :: "nat \<Rightarrow> scheduler \<Rightarrow> status" where
  "getStatus hours s =
     \<lparr>status_isRunning = isRunning s, status_lastRun = lastRun s,
      status_lastResult = lastResult s, nextRun = getNextRun hours, status_jobs = jobs s\<rparr>"

subsection \<open>Triggers on the event loop\<close>

text \<open>
  The process handles one event at a time, each to its next \<open>await\<close>: the cron callback, the
  handler of \<open>POST /scrape\<close> (whose check, reply and call of \<open>runScraping\<close> contain no
  \<open>await\<close>), and the settling of a pipeline run that is in flight.
\<close>

datatype event = TimerFires | ManualScrape nat | RunSettles nat scrape_promise

datatype report = RunStarted | IgnoredAlreadyRunning | Reply202 | Reply409InProgress

record system =
  sched :: scheduler
  in_flight :: nat
  reports :: "report list"

definition initial_system :: system where
  "initial_system = \<lparr>sched = new_scheduler, in_flight = 0, reports = []\<rparr>"

definition trigger_run :: "system \<Rightarrow> system" where
  "trigger_run y =
     (case runScraping_enter (sched y) of
        None \<Rightarrow> y\<lparr>reports := reports y @ [IgnoredAlreadyRunning]\<rparr>
      | Some s1 \<Rightarrow>
          y\<lparr>sched := s1, in_flight := in_flight y + 1, reports := reports y @ [RunStarted]\<rparr>)"

definition scrape_handler :: "nat \<Rightarrow> system \<Rightarrow> system" where
  "scrape_handler hours y =
     (if status_isRunning (getStatus hours (sched y))
      then y\<lparr>reports := reports y @ [Reply409InProgress]\<rparr>
      else trigger_run (y\<lparr>reports := reports y @ [Reply202]\<rparr>))"

text \<open>A run can settle only while one is in flight.\<close>

fun step :: "system \<Rightarrow> event \<Rightarrow> system option" where
  "step y TimerFires = Some (trigger_run y)"
| "step y (ManualScrape hours) = Some (scrape_handler hours y)"
| "step y (RunSettles now r) =
     (if in_flight y = 0 then None
      else Some (y\<lparr>sched := fst (runScraping_settle now r (sched y)),
                   in_flight := in_flight y - 1\<rparr>))"

fun exec :: "system \<Rightarrow> event list \<Rightarrow> system option" where
  "exec y [] = Some y"
| "exec y (e # es) = (case step y e of None \<Rightarrow> None | Some y' \<Rightarrow> exec y' es)"

definition is_trigger :: "event \<Rightarrow> bool" where
  "is_trigger e = (case e of RunSettles now r \<Rightarrow> False | _ \<Rightarrow> True)"


text \<open>
  The single-flight condition: the number of pipeline runs in flight is one while the flag is
  set and zero while it is clear.
\<close>

definition single_flight :: "system \<Rightarrow> bool" where
  "single_flight y = (in_flight y = (if isRunning (sched y) then 1 else 0))"

text \<open>What a trigger leaves in the trace when it is turned away, and when it starts a run.\<close>

definition refusal :: "event \<Rightarrow> report" where
  "refusal e = (case e of ManualScrape hours \<Rightarrow> Reply409InProgress | _ \<Rightarrow> IgnoredAlreadyRunning)"

definition acceptance :: "event \<Rightarrow> report list" where
  "acceptance e = (case e of ManualScrape hours \<Rightarrow> [Reply202, RunStarted] | _ \<Rightarrow> [RunStarted])"

section \<open>The aggregation handlers\<close>

text \<open>
  Stored prices and coordinates are doubles or \<open>null\<close>. \<open>Math.round\<close> on a finite number:
\<close>

definition round_half_up :: "real \<Rightarrow> int" where
  "round_half_up x = \<lfloor>x + 1 / 2\<rfloor>"

text \<open>Exact arithmetic, for comparison: no rounding at all.\<close>

definition exact :: "real \<Rightarrow> real" where
  "exact x = x"

subsection \<open>Price distribution\<close>

record bucket =
  range_min :: int
  range_max :: int
  count :: nat
  percentage :: real

text \<open>
  In what follows \<open>fl\<close> is the rounding applied to the result of each arithmetic operation.
  The two bounds of bucket \<open>i\<close>: \<open>min + (i * bucketSize)\<close> and \<open>min + ((i + 1) * bucketSize)\<close>.
\<close>

definition bucket_min ::
  "(real \<Rightarrow> real) \<Rightarrow> real \<Rightarrow> real \<Rightarrow> nat \<Rightarrow> real" where
  "bucket_min fl mn bucketSize i = fl (mn + fl (real i * bucketSize))"

definition bucket_max ::
  "(real \<Rightarrow> real) \<Rightarrow> real \<Rightarrow> real \<Rightarrow> nat \<Rightarrow> real" where
  "bucket_max fl mn bucketSize i = fl (mn + fl ((real i + 1) * bucketSize))"

text \<open>The membership test of bucket \<open>i\<close>, as in the \<open>filter\<close> of the loop body.\<close>

definition in_bucket ::
  "(real \<Rightarrow> real) \<Rightarrow> real \<Rightarrow> real \<Rightarrow> nat \<Rightarrow> nat \<Rightarrow> real \<Rightarrow> bool" where
  "in_bucket fl mn bucketSize buckets i p =
     (p \<ge> bucket_min fl mn bucketSize i
      \<and> (if int i = int buckets - 1 then p \<le> bucket_max fl mn bucketSize i
         else p < bucket_max fl mn bucketSize i))"

definition make_bucket ::
  "(real \<Rightarrow> real) \<Rightarrow> real list \<Rightarrow> real \<Rightarrow> real \<Rightarrow> nat \<Rightarrow> nat \<Rightarrow> bucket" where
  "make_bucket fl prices mn bucketSize buckets i =
     (let cnt = length (filter (in_bucket fl mn bucketSize buckets i) prices)
      in \<lparr>range_min = round_half_up (bucket_min fl mn bucketSize i),
          range_max = round_half_up (bucket_max fl mn bucketSize i),
          count = cnt,
          percentage =
            fl (real_of_int (round_half_up
                  (fl (fl (fl (real cnt / real (length prices)) * 100) * 10))) / 10)\<rparr>)"

text \<open>
  The handler after its query: \<open>None\<close> is the answer with empty \<open>data\<close> for an empty
  selection; otherwise the prices are sorted and one bucket is built for each
  \<open>i < buckets\<close>. The request schema makes \<open>buckets\<close> an integer from 5 to 20.
\<close>

definition distribution_with ::
  "(real \<Rightarrow> real) \<Rightarrow> real list \<Rightarrow> nat \<Rightarrow> bucket list option" where
  "distribution_with fl selected buckets =
     (if length selected = 0 then None
      else
        (let prices = sort selected;
             mn = hd prices;
             mx = last prices;
             bucketSize = fl (fl (mx - mn) / real buckets)
         in Some (map (make_bucket fl prices mn bucketSize buckets) [0 ..< buckets])))"

definition priceDistribution :: "real list \<Rightarrow> nat \<Rightarrow> bucket list option" where
  "priceDistribution = distribution_with to_double"

subsection \<open>Geo-radius search\<close>

text \<open>
  The columns of a stored property that the handler reads. The column \<open>imageUrls\<close>, which
  the handler decodes for the response, is left out.
\<close>

record geo_row =
  row_id :: string
  row_latitude :: "real option"
  row_longitude :: "real option"
  row_propertyType :: string
  row_transactionType :: string
  row_price :: "real option"

text \<open>The request body besides the centre and the radius; an absent member is \<open>None\<close>.\<close>

record geo_filters =
  filter_propertyType :: "string option"
  filter_transactionType :: "string option"
  minPrice :: "real option"
  maxPrice :: "real option"
  limit :: "nat option"

definition truthy_str :: "string option \<Rightarrow> bool" where
  "truthy_str s = (case s of None \<Rightarrow> False | Some t \<Rightarrow> t \<noteq> [])"

definition truthy_num :: "real option \<Rightarrow> bool" where
  "truthy_num x = (case x of None \<Rightarrow> False | Some v \<Rightarrow> v \<noteq> 0)"

text \<open>
  The two spreads for the price both write the key \<open>price\<close> of the \<open>where\<close> object, so with
  both bounds given the later one, \<open>lte maxPrice\<close>, is the only price condition. A row
  without a price meets no price condition.
\<close>

definition price_condition :: "geo_filters \<Rightarrow> real option \<Rightarrow> bool" where
  "price_condition f p =
     (if truthy_num (maxPrice f) then (case p of None \<Rightarrow> False | Some v \<Rightarrow> v \<le> the (maxPrice f))
      else if truthy_num (minPrice f) then (case p of None \<Rightarrow> False | Some v \<Rightarrow> v \<ge> the (minPrice f))
      else True)"

text \<open>
  The bounding box. \<open>lonDelta\<close> divides by \<open>111 * cos\<close>; where that is zero the quotient of a
  positive radius is \<open>Infinity\<close> and every longitude is inside, and the quotient of any other
  radius leaves no longitude inside.
\<close>

definition lat_in_box :: "real \<Rightarrow> real \<Rightarrow> real \<Rightarrow> bool" where
  "lat_in_box centerLat radiusKm l =
     (let latDelta = radiusKm / 111 in l \<ge> centerLat - latDelta \<and> l \<le> centerLat + latDelta)"

definition lon_in_box :: "real \<Rightarrow> real \<Rightarrow> real \<Rightarrow> real \<Rightarrow> bool" where
  "lon_in_box centerLat centerLon radiusKm l =
     (let d = 111 * cos (centerLat * pi / 180)
      in if d = 0 then radiusKm > 0
         else (let lonDelta = radiusKm / d in l \<ge> centerLon - lonDelta \<and> l \<le> centerLon + lonDelta))"

definition where_clause ::
  "real \<Rightarrow> real \<Rightarrow> real \<Rightarrow> geo_filters \<Rightarrow> geo_row \<Rightarrow> bool" where
  "where_clause centerLat centerLon radiusKm f p =
     ((case row_latitude p of None \<Rightarrow> False | Some l \<Rightarrow> lat_in_box centerLat radiusKm l)
      \<and> (case row_longitude p of None \<Rightarrow> False | Some l \<Rightarrow> lon_in_box centerLat centerLon radiusKm l)
      \<and> (if truthy_str (filter_propertyType f)
           then row_propertyType p = the (filter_propertyType f) else True)
      \<and> (if truthy_str (filter_transactionType f)
           then row_transactionType p = the (filter_transactionType f) else True)
      \<and> price_condition f (row_price p))"

text \<open>\<open>take: filters.limit || 20\<close>.\<close>

definition take_count :: "geo_filters \<Rightarrow> nat" where
  "take_count f = (case limit f of None \<Rightarrow> 20 | Some n \<Rightarrow> if n = 0 then 20 else n)"

text \<open>\<open>findMany\<close> without an ordering: the first matching rows in the order of the table.\<close>

definition findMany ::
  "real \<Rightarrow> real \<Rightarrow> real \<Rightarrow> geo_filters \<Rightarrow> geo_row list \<Rightarrow> geo_row list" where
  "findMany centerLat centerLon radiusKm f tbl =
     take (take_count f) (filter (where_clause centerLat centerLon radiusKm f) tbl)"

definition atan2 :: "real \<Rightarrow> real \<Rightarrow> real" where
  "atan2 y x =
     (if x > 0 then arctan (y / x)
      else if x < 0 then (if y \<ge> 0 then arctan (y / x) + pi else arctan (y / x) - pi)
      else if y > 0 then pi / 2 else if y < 0 then - (pi / 2) else 0)"

text \<open>
  The term \<open>a\<close> of the haversine formula, and the distance in kilometres. The
  trigonometric functions and the square root are taken exactly, without rounding.
\<close>

definition haversine_a :: "real \<Rightarrow> real \<Rightarrow> real \<Rightarrow> real \<Rightarrow> real" where
  "haversine_a centerLat centerLon pLat pLon =
     (let dLat = (pLat - centerLat) * pi / 180;
          dLon = (pLon - centerLon) * pi / 180
      in sin (dLat / 2) * sin (dLat / 2)
         + cos (centerLat * pi / 180) * cos (pLat * pi / 180) * sin (dLon / 2) * sin (dLon / 2))"

definition distance :: "real \<Rightarrow> real \<Rightarrow> real \<Rightarrow> real \<Rightarrow> real" where
  "distance centerLat centerLon pLat pLon =
     (let a = haversine_a centerLat centerLon pLat pLon;
          c = 2 * atan2 (sqrt a) (sqrt (1 - a))
      in 6371 * c)"

text \<open>\<open>Math.round(distance * 100) / 100\<close>.\<close>

definition distanceKm :: "real \<Rightarrow> real \<Rightarrow> geo_row \<Rightarrow> real" where
  "distanceKm centerLat centerLon p =
     real_of_int (round_half_up
       (distance centerLat centerLon (the (row_latitude p)) (the (row_longitude p)) * 100)) / 100"

text \<open>
  The handler: each row found is paired with its rounded distance, the pairs within the
  radius are kept and sorted by that distance (the sort is stable).
\<close>

definition geoSearch ::
  "real \<Rightarrow> real \<Rightarrow> real \<Rightarrow> geo_filters \<Rightarrow> geo_row list \<Rightarrow> (geo_row \<times> real) list" where
  "geoSearch centerLat centerLon radiusKm f tbl =
     (let properties = findMany centerLat centerLon radiusKm f tbl;
          withDistance = map (\<lambda>p. (p, distanceKm centerLat centerLon p)) properties
      in sort_key snd (filter (\<lambda>pd. snd pd \<le> radiusKm) withDistance))"


section \<open>Sample inputs\<close>

definition sample_env :: env where
  "sample_env = \<lparr>date_now = 1700000000000, random36 = ''0.k3j9x1q8zt4''\<rparr>"

definition later_env :: env where
  "later_env = \<lparr>date_now = 1700021600000, random36 = ''0.7wq2m5c0ap1''\<rparr>"

definition sample_mutation :: mutation where
  "sample_mutation =
     \<lparr>id_mutation = Some ''2023-481516'',
      valeur_fonciere = JNum (Fin 250000),
      surface_reelle_bati = JNum (Fin 48),
      type_local = Some ''Appartement'',
      commune = Some ''Paris'',
      code_postal = Some ''75011'',
      code_departement = Some ''75'',
      latitude_raw = JNum (Fin (488589 / 10000)),
      longitude_raw = JNum (Fin (23795 / 10000))\<rparr>"

text \<open>The same sale with one field changed at a time.\<close>

definition no_surface_mutation :: mutation where
  "no_surface_mutation = sample_mutation\<lparr>surface_reelle_bati := JUndefined\<rparr>"

definition unparsable_price_mutation :: mutation where
  "unparsable_price_mutation = sample_mutation\<lparr>valeur_fonciere := JStr ''n/a''\<rparr>"

definition no_department_mutation :: mutation where
  "no_department_mutation = sample_mutation\<lparr>code_departement := None\<rparr>"

text \<open>
  The sample sale with its price given as the string \<open>9000\<close> after a no-break space, and
  as the string \<open>Infinity\<close>.
\<close>

definition nbsp_price_mutation :: mutation where
  "nbsp_price_mutation = sample_mutation\<lparr>valeur_fonciere := JStr ([CHR 0xC2, CHR 0xA0] @ ''9000'')\<rparr>"

definition infinite_price_mutation :: mutation where
  "infinite_price_mutation = sample_mutation\<lparr>valeur_fonciere := JStr ''Infinity''\<rparr>"

text \<open>
  A sale of 25188786 euros for 864.48 square metres; the surface is the double nearest to
  864.48, which is \<open>1901011623959593 / 2^41\<close>.
\<close>

definition rounding_mutation :: mutation where
  "rounding_mutation =
     sample_mutation\<lparr>valeur_fonciere := JNum (Fin 25188786),
                      surface_reelle_bati := JNum (Fin (1901011623959593 / 2199023255552))\<rparr>"

text \<open>A database on which every upsert throws, and a service whose every request fails.\<close>

definition failing_db :: db_port where
  "failing_db st a = None"


text \<open>
  A service that has the sample sale for Paris in 2023 and nothing else, and two runs
  against it six hours apart.
\<close>

definition sample_http :: "string \<Rightarrow> nat \<Rightarrow> http_result" where
  "sample_http dep annee =
     (if dep = ''75'' \<and> annee = 2023 then HttpOk (Some [sample_mutation]) else HttpOk None)"

definition first_run :: run_env where
  "first_run =
     \<lparr>http_get = sample_http, call_env = (\<lambda>k. sample_env), save_clock = (\<lambda>k. 1700000010000),
      database = reliable_db, end_time = 1700000011000\<rparr>"

definition second_run :: run_env where
  "second_run =
     \<lparr>http_get = sample_http, call_env = (\<lambda>k. later_env), save_clock = (\<lambda>k. 1700021610000),
      database = reliable_db, end_time = 1700021611000\<rparr>"


definition sample_summary :: summary where
  "sample_summary = \<lparr>saved = 1, errors = 0, total = 1, summary_scrapedAt = 1700000011000\<rparr>"

definition busy_system :: system where
  "busy_system =
     \<lparr>sched = new_scheduler\<lparr>isRunning := True\<rparr>, in_flight = 1, reports = [RunStarted]\<rparr>"

definition sample_property :: property where
  "sample_property = the (mutationToProperty sample_env sample_mutation)"

definition empty_save_state :: save_state where
  "empty_save_state = \<lparr>counts = \<lparr>saved = 0, errors = 0\<rparr>, db_store = [], upserts = []\<rparr>"

definition later_property :: property where
  "later_property = the (mutationToProperty later_env sample_mutation)"

text \<open>
  A database on which the upsert keyed by the identifier of the first sample entity throws
  and every other upsert succeeds.
\<close>

definition picky_db :: db_port where
  "picky_db st a =
     (if where_externalId a = ''DVF_2023-481516_k3j9x1q8z'' then None else reliable_db st a)"

text \<open>Two sales, to be put into seven buckets.\<close>

definition two_prices :: "real list" where
  "two_prices = [115940, 4131290]"

text \<open>
  A search of five kilometres around the centre of Paris that asks for one result, over a
  table with a row 0.045 degrees to the north and a row at the centre itself; and a row 0.05
  degrees to the north.
\<close>

definition paris_lat :: real where
  "paris_lat = 488566 / 10000"

definition paris_lon :: real where
  "paris_lon = 23522 / 10000"

definition north_lat :: real where
  "north_lat = 489016 / 10000"

definition far_lat :: real where
  "far_lat = 489066 / 10000"

definition limit_one :: geo_filters where
  "limit_one =
     \<lparr>filter_propertyType = None, filter_transactionType = Some ''vente'',
      minPrice = None, maxPrice = None, limit = Some 1\<rparr>"

definition north_row :: geo_row where
  "north_row =
     \<lparr>row_id = ''north'', row_latitude = Some north_lat, row_longitude = Some paris_lon,
      row_propertyType = ''appartement'', row_transactionType = ''vente'', row_price = Some 250000\<rparr>"

definition centre_row :: geo_row where
  "centre_row =
     \<lparr>row_id = ''centre'', row_latitude = Some paris_lat, row_longitude = Some paris_lon,
      row_propertyType = ''appartement'', row_transactionType = ''vente'', row_price = Some 520000\<rparr>"

definition far_row :: geo_row where
  "far_row = north_row\<lparr>row_id := ''far'', row_latitude := Some far_lat\<rparr>"


section \<open>Evaluation of the sample inputs\<close>

lemmas sample_defs = sample_env_def later_env_def sample_mutation_def no_surface_mutation_def
  unparsable_price_mutation_def no_department_mutation_def rounding_mutation_def

lemmas double_eval = to_double_def norm_down.simps norm_up.simps round_even_def pow2_def

lemmas parse_eval = parse_float_str_def strip_ws.simps ws_width_def white_space_def is_digit_def
  exponent_part_def scale10_def digit_val_def double_of_def

lemma parse_not_a_number: "parse_float_str ''n/a'' = NaN"
  by (simp add: parse_eval Let_def)

lemma nbsp_price_parsed: "parseFloat (valeur_fonciere nbsp_price_mutation) = Fin 9000"
  by (simp add: nbsp_price_mutation_def parse_eval double_eval Let_def)

lemma infinite_price_parsed: "parseFloat (valeur_fonciere infinite_price_mutation) = PosInf"
  by (simp add: infinite_price_mutation_def parse_eval Let_def)



lemma sample_accepted:
  "mutationToProperty sample_env sample_mutation \<noteq> None"
  by (simp add: mutationToProperty_def sample_defs js_gt_def Let_def)

section \<open>Rounding to a double\<close>





















section \<open>Region\<close>

lemma regions_nonempty: "map_of regions d = Some r \<Longrightarrow> r \<noteq> []"
  by (auto simp: regions_def ile_de_france_def auvergne_rhone_alpes_def
      provence_alpes_cote_d_azur_def split: if_splits)

lemma undefined_not_a_key:
  "map_of regions ''undefined'' = None" "''undefined'' \<notin> set object_prototype_keys"
  by (simp_all add: regions_def object_prototype_keys_def)

lemma getRegion_cases:
  "getRegionFromDepartement dep =
     (case dep of
        None \<Rightarrow> PStr ''France''
      | Some d \<Rightarrow>
          (case map_of regions d of
             Some r \<Rightarrow> PStr r
           | None \<Rightarrow> if d \<in> set object_prototype_keys then PInherited d else PStr ''France''))"
proof (cases dep)
  case None
  then show ?thesis
    using undefined_not_a_key by (simp add: getRegionFromDepartement_def obj_get_def)
next
  case (Some d)
  show ?thesis
  proof (cases "map_of regions d")
    case None
    with Some show ?thesis by (simp add: getRegionFromDepartement_def obj_get_def)
  next
    case (Some r)
    with \<open>dep = Some d\<close> regions_nonempty [OF Some] show ?thesis
      by (simp add: getRegionFromDepartement_def obj_get_def)
  qed
qed

lemma accepted_fields:
  assumes "mutationToProperty e m = Some ent"
  shows "price ent = parseFloat (valeur_fonciere m)"
    and "surface ent = parseFloat (surface_reelle_bati m)"
    and "pricePerSqm ent = math_round (js_div (price ent) (surface ent))"
    and "region ent = getRegionFromDepartement (code_departement m)"
    and "truthy (valeur_fonciere m)" and "truthy (surface_reelle_bati m)"
    and "\<not> js_lt (price ent) (Fin 10000)" and "\<not> js_gt (price ent) (Fin 50000000)"
    and "\<not> js_lt (surface ent) (Fin 9)" and "\<not> js_gt (surface ent) (Fin 1000)"
  using assms
  by (simp_all add: mutationToProperty_def Let_def split: if_splits) auto

text \<open>
  Claim C9, as the code has it: the region of a produced entity is looked up from the
  department code in the static table, and when the department is absent, or is neither a
  key of the table nor a name inherited from \<open>Object.prototype\<close>, the region is the string
  \<open>France\<close>.
\<close>

theorem region_falls_back_to_France:
  assumes "mutationToProperty e m = Some ent"
  shows "region ent =
     (case code_departement m of
        None \<Rightarrow> PStr ''France''
      | Some d \<Rightarrow>
          (case map_of regions d of
             Some r \<Rightarrow> PStr r
           | None \<Rightarrow> if d \<in> set object_prototype_keys then PInherited d else PStr ''France''))"
  using accepted_fields(4) [OF assms] by (simp add: getRegion_cases)

lemma no_department_accepted:
  "mutationToProperty sample_env no_department_mutation \<noteq> None"
  by (simp add: mutationToProperty_def sample_defs js_gt_def Let_def)

theorem region_falls_back_to_France_witness:
  "mutationToProperty sample_env no_department_mutation \<noteq> None
   \<and> region (the (mutationToProperty sample_env no_department_mutation)) = PStr ''France''"
proof -
  have h: "mutationToProperty sample_env no_department_mutation
           = Some (the (mutationToProperty sample_env no_department_mutation))"
    using no_department_accepted by simp
  have "code_departement no_department_mutation = None"
    by (simp add: sample_defs)
  with region_falls_back_to_France [OF h] no_department_accepted show ?thesis by simp
qed

text \<open>
  The fallback is not the string \<open>unknown\<close>: a sale without a department code gets the
  region \<open>France\<close>.
\<close>

theorem region_unknown_counterexample:
  "map_option region (mutationToProperty sample_env no_department_mutation) = Some (PStr ''France'')
   \<and> map_option region (mutationToProperty sample_env no_department_mutation) \<noteq> Some (PStr ''unknown'')"
  by (simp add: mutationToProperty_def sample_defs js_gt_def Let_def getRegionFromDepartement_def
      obj_get_def regions_def object_prototype_keys_def)


section \<open>Acceptance\<close>

text \<open>
  Claim C2, as the code has it: the normalizer returns no entity when the price or the
  surface is absent (or otherwise falsy); when both are present and neither parses to NaN it
  returns no entity exactly when the price is outside [10000, 50000000] or the surface is
  outside [9, 1000], an infinite value being outside, and otherwise it returns an entity that
  carries the parsed price and surface unchanged.
\<close>

theorem normalizer_rejects_absent_or_out_of_range:
  "(\<not> truthy (valeur_fonciere m) \<or> \<not> truthy (surface_reelle_bati m)
      \<longrightarrow> mutationToProperty e m = None)
   \<and> (truthy (valeur_fonciere m) \<and> truthy (surface_reelle_bati m)
        \<and> parseFloat (valeur_fonciere m) \<noteq> NaN \<and> parseFloat (surface_reelle_bati m) \<noteq> NaN
      \<longrightarrow> (if \<exists>p s. parseFloat (valeur_fonciere m) = Fin p
                   \<and> parseFloat (surface_reelle_bati m) = Fin s
                   \<and> 10000 \<le> p \<and> p \<le> 50000000 \<and> 9 \<le> s \<and> s \<le> 1000
           then \<exists>ent. mutationToProperty e m = Some ent
                  \<and> price ent = parseFloat (valeur_fonciere m)
                  \<and> surface ent = parseFloat (surface_reelle_bati m)
           else mutationToProperty e m = None))"
  by (cases "parseFloat (valeur_fonciere m)"; cases "parseFloat (surface_reelle_bati m)")
    (auto simp: mutationToProperty_def Let_def js_gt_def)

theorem normalizer_rejects_absent_or_out_of_range_witness:
  "mutationToProperty sample_env no_surface_mutation = None
   \<and> (\<exists>ent. mutationToProperty sample_env sample_mutation = Some ent
         \<and> price ent = Fin 250000 \<and> surface ent = Fin 48)
   \<and> parseFloat (valeur_fonciere nbsp_price_mutation) = Fin 9000
   \<and> mutationToProperty sample_env nbsp_price_mutation = None
   \<and> parseFloat (valeur_fonciere infinite_price_mutation) = PosInf
   \<and> mutationToProperty sample_env infinite_price_mutation = None"
proof -
  have absent: "mutationToProperty sample_env no_surface_mutation = None"
    using normalizer_rejects_absent_or_out_of_range [of no_surface_mutation sample_env]
    by (simp add: sample_defs)
  have accepted: "\<exists>ent. mutationToProperty sample_env sample_mutation = Some ent
         \<and> price ent = Fin 250000 \<and> surface ent = Fin 48"
    using normalizer_rejects_absent_or_out_of_range [of sample_mutation sample_env]
    by (simp add: sample_defs)
  have nbsp: "truthy (valeur_fonciere nbsp_price_mutation)"
    "truthy (surface_reelle_bati nbsp_price_mutation)"
    "parseFloat (surface_reelle_bati nbsp_price_mutation) = Fin 48"
    by (simp_all add: nbsp_price_mutation_def sample_defs)
  have low: "mutationToProperty sample_env nbsp_price_mutation = None"
    using normalizer_rejects_absent_or_out_of_range [of nbsp_price_mutation sample_env]
    by (simp add: nbsp nbsp_price_parsed)
  have inf: "truthy (valeur_fonciere infinite_price_mutation)"
    "truthy (surface_reelle_bati infinite_price_mutation)"
    "parseFloat (surface_reelle_bati infinite_price_mutation) = Fin 48"
    by (simp_all add: infinite_price_mutation_def sample_defs)
  have infinite: "mutationToProperty sample_env infinite_price_mutation = None"
    using normalizer_rejects_absent_or_out_of_range [of infinite_price_mutation sample_env]
    by (simp add: inf infinite_price_parsed)
  from absent accepted low infinite show ?thesis
    by (simp add: nbsp_price_parsed infinite_price_parsed)
qed

text \<open>
  A sale with a valid price and no surface is rejected although only one of the two fields
  is absent, and a sale whose price does not parse is accepted, with the price NaN.
\<close>

theorem normalizer_claim_counterexample:
  "parseFloat (valeur_fonciere no_surface_mutation) = Fin 250000
   \<and> surface_reelle_bati no_surface_mutation = JUndefined
   \<and> mutationToProperty sample_env no_surface_mutation = None
   \<and> parseFloat (valeur_fonciere unparsable_price_mutation) = NaN
   \<and> mutationToProperty sample_env unparsable_price_mutation \<noteq> None"
  by (simp add: mutationToProperty_def sample_defs js_gt_def Let_def parse_not_a_number)

section \<open>Price per square metre\<close>






section \<open>Two runs over the same sale\<close>

lemma later_accepted: "mutationToProperty later_env sample_mutation \<noteq> None"
  by (simp add: mutationToProperty_def sample_defs js_gt_def Let_def)

lemma sample_externalId: "externalId sample_property = ''DVF_2023-481516_k3j9x1q8z''"
  by (simp add: sample_property_def mutationToProperty_def sample_defs js_gt_def Let_def
      id_or_now_def substr_2_9_def)

lemma later_externalId: "externalId later_property = ''DVF_2023-481516_7wq2m5c0a''"
  by (simp add: later_property_def mutationToProperty_def sample_defs js_gt_def Let_def
      id_or_now_def substr_2_9_def)

lemma normalize_single:
  "mutationToProperty (envs k) m \<noteq> None \<Longrightarrow>
   normalize_batch envs k [m] = [the (mutationToProperty (envs k) m)]"
  by (simp add: normalize_batch_def)

lemma normalize_nothing: "normalize_batch envs k [] = []"
  by (simp add: normalize_batch_def)

lemma first_run_collects: "totalProperties (scrape_loops first_run) = [sample_property]"
  using sample_accepted
  by (simp add: scrape_loops_def scrape_year_def scrape_partition_def annees_def DEPARTEMENTS_def
      first_run_def sample_http_def scrapeDepartement_def normalize_single normalize_nothing
      sample_property_def Let_def)

lemma second_run_collects: "totalProperties (scrape_loops second_run) = [later_property]"
  using later_accepted
  by (simp add: scrape_loops_def scrape_year_def scrape_partition_def annees_def DEPARTEMENTS_def
      second_run_def sample_http_def scrapeDepartement_def normalize_single normalize_nothing
      later_property_def Let_def)

lemma run_databases: "database first_run = reliable_db" "database second_run = reliable_db"
  by (simp_all add: first_run_def second_run_def)

lemma first_run_store:
  "final_store (scrapeAll first_run []) = [(sample_property, None)]"
  by (simp add: scrapeAll_def Let_def first_run_collects saveProperties_def save_one_def
      run_databases reliable_db_def prisma_upsert_def has_key_def upsert_call_def)

lemma second_run_store:
  "final_store (scrapeAll second_run [(sample_property, None)])
     = [(sample_property, None), (later_property, None)]"
  by (simp add: scrapeAll_def Let_def second_run_collects saveProperties_def save_one_def
      run_databases reliable_db_def prisma_upsert_def has_key_def upsert_call_def
      sample_externalId later_externalId)

text \<open>
  Claim C1 at a concrete input: the same raw sale is normalized in two runs six hours apart.
  The identifier ends in a fresh random string, so the two entities have different
  \<open>externalId\<close>s and the second run adds a second row for the same sale.
\<close>

theorem same_sale_ingested_twice_is_stored_twice:
  "mutationToProperty sample_env sample_mutation = Some sample_property
   \<and> mutationToProperty later_env sample_mutation = Some later_property
   \<and> externalId sample_property = ''DVF_2023-481516_k3j9x1q8z''
   \<and> externalId later_property = ''DVF_2023-481516_7wq2m5c0a''
   \<and> externalId sample_property \<noteq> externalId later_property
   \<and> http_get first_run = http_get second_run
   \<and> length (final_store (scrapeAll first_run [])) = 1
   \<and> length (final_store (scrapeAll second_run (final_store (scrapeAll first_run [])))) = 2"
  using sample_accepted later_accepted
  by (simp add: sample_property_def [symmetric] later_property_def [symmetric]
      first_run_store second_run_store sample_externalId later_externalId)
    (simp add: sample_property_def later_property_def first_run_def second_run_def)

theorem same_sale_ingested_twice_is_stored_twice_witness:
  "map (\<lambda>r. externalId (fst r)) (final_store (scrapeAll second_run (final_store (scrapeAll first_run []))))
     = [''DVF_2023-481516_k3j9x1q8z'', ''DVF_2023-481516_7wq2m5c0a'']"
  using same_sale_ingested_twice_is_stored_twice
  by (simp add: first_run_store second_run_store)

section \<open>Bulk persistence\<close>

lemma save_one_counts:
  "saved (counts (save_one db t p s)) + errors (counts (save_one db t p s))
     = Suc (saved (counts s) + errors (counts s))"
  by (simp add: save_one_def Let_def split: option.splits)

lemma save_one_upserts: "upserts (save_one db t p s) = upserts s @ [upsert_call t p]"
  by (simp add: save_one_def Let_def split: option.splits)

lemma save_loop_counts:
  "saved (counts (save_loop db clock k ps s)) + errors (counts (save_loop db clock k ps s))
     = saved (counts s) + errors (counts s) + length ps"
  by (induction ps arbitrary: k s) (simp_all add: save_one_counts)

lemma save_loop_upserts:
  "upserts (save_loop db clock k ps s)
     = upserts s @ map (\<lambda>(i, p). upsert_call (clock i) p) (zip [k ..< k + length ps] ps)"
proof (induction ps arbitrary: k s)
  case Nil
  show ?case by simp
next
  case (Cons p ps)
  have "[k ..< k + length (p # ps)] = k # [Suc k ..< Suc k + length ps]"
    by (simp add: upt_rec)
  with Cons show ?case by (simp add: save_one_upserts)
qed

lemma keys_of_upsert_calls:
  "map where_externalId (map (\<lambda>(i, p). upsert_call (clock i) p) (zip [k ..< k + length ps] ps))
     = map externalId ps"
proof -
  have keys: "map where_externalId (map (\<lambda>(i, p). upsert_call (clock i) p) zs)
              = map externalId (map snd zs)" for zs :: "(nat \<times> property) list"
    by (induction zs) (auto simp: upsert_call_def)
  have unzip: "map snd (zip [k ..< k + length ps] ps) = ps"
    by (simp add: map_snd_zip)
  show ?thesis by (simp only: keys unzip)
qed

lemma save_loop_store:
  "db_store (save_loop db clock k ps s)
     = store_after db (db_store s)
         (map (\<lambda>(i, p). upsert_call (clock i) p) (zip [k ..< k + length ps] ps))"
proof (induction ps arbitrary: k s)
  case Nil
  show ?case by simp
next
  case (Cons p ps)
  have "[k ..< k + length (p # ps)] = k # [Suc k ..< Suc k + length ps]"
    by (simp add: upt_rec)
  with Cons show ?case by (simp add: save_one_def Let_def split: option.splits)
qed

lemma save_loop_saved:
  "saved (counts (save_loop db clock k ps s))
     = saved (counts s)
       + successes db (db_store s)
           (map (\<lambda>(i, p). upsert_call (clock i) p) (zip [k ..< k + length ps] ps))"
proof (induction ps arbitrary: k s)
  case Nil
  show ?case by simp
next
  case (Cons p ps)
  have "[k ..< k + length (p # ps)] = k # [Suc k ..< Suc k + length ps]"
    by (simp add: upt_rec)
  with Cons show ?case by (simp add: save_one_def Let_def split: option.splits)
qed

text \<open>
  Claim C6: whatever the database does, \<open>saveProperties\<close> issues one upsert for every
  entity, in order and keyed by its \<open>externalId\<close>; \<open>saved\<close> is the number of these upserts
  that succeed, each on the store left by the ones before it, \<open>errors\<close> is the number of
  the others, and the store at the end is the one the successful upserts leave; so
  \<open>saved + errors\<close> is the number of entities passed in. Within the loop, an upsert that
  throws adds one to \<open>errors\<close>, leaves \<open>saved\<close> and the store alone, and the loop goes on
  with the rest; one that succeeds adds one to \<open>saved\<close> and hands its store on.
\<close>

theorem saveProperties_accounts_for_every_entity:
  "upserts (saveProperties db clock st props) = expected_calls clock props
   \<and> map where_externalId (expected_calls clock props) = map externalId props
   \<and> saved (counts (saveProperties db clock st props))
       = successes db st (expected_calls clock props)
   \<and> errors (counts (saveProperties db clock st props))
       = length props - successes db st (expected_calls clock props)
   \<and> saved (counts (saveProperties db clock st props))
       + errors (counts (saveProperties db clock st props)) = length props
   \<and> db_store (saveProperties db clock st props)
       = store_after db st (expected_calls clock props)
   \<and> (db (db_store s) (upsert_call (clock k) p) = None \<longrightarrow>
        save_loop db clock k (p # rest) s
          = save_loop db clock (Suc k) rest
              (s\<lparr>counts := (counts s)\<lparr>errors := errors (counts s) + 1\<rparr>,
                 upserts := upserts s @ [upsert_call (clock k) p]\<rparr>))
   \<and> (db (db_store s) (upsert_call (clock k) p) = Some st' \<longrightarrow>
        save_loop db clock k (p # rest) s
          = save_loop db clock (Suc k) rest
              (s\<lparr>counts := (counts s)\<lparr>saved := saved (counts s) + 1\<rparr>,
                 db_store := st',
                 upserts := upserts s @ [upsert_call (clock k) p]\<rparr>))"
proof (intro conjI impI)
  let ?r = "saveProperties db clock st props"
  show "upserts ?r = expected_calls clock props"
    by (simp add: saveProperties_def save_loop_upserts expected_calls_def)
  show "map where_externalId (expected_calls clock props) = map externalId props"
    using keys_of_upsert_calls [of clock 0 props] by (simp add: expected_calls_def)
  show sv: "saved (counts ?r) = successes db st (expected_calls clock props)"
    by (simp add: saveProperties_def save_loop_saved expected_calls_def)
  show total: "saved (counts ?r) + errors (counts ?r) = length props"
    by (simp add: saveProperties_def save_loop_counts)
  from sv total show "errors (counts ?r) = length props - successes db st (expected_calls clock props)"
    by simp
  show "db_store ?r = store_after db st (expected_calls clock props)"
    by (simp add: saveProperties_def save_loop_store expected_calls_def)
next
  assume "db (db_store s) (upsert_call (clock k) p) = None"
  then show "save_loop db clock k (p # rest) s
          = save_loop db clock (Suc k) rest
              (s\<lparr>counts := (counts s)\<lparr>errors := errors (counts s) + 1\<rparr>,
                 upserts := upserts s @ [upsert_call (clock k) p]\<rparr>)"
    by (simp add: save_one_def)
next
  assume "db (db_store s) (upsert_call (clock k) p) = Some st'"
  then show "save_loop db clock k (p # rest) s
          = save_loop db clock (Suc k) rest
              (s\<lparr>counts := (counts s)\<lparr>saved := saved (counts s) + 1\<rparr>,
                 db_store := st',
                 upserts := upserts s @ [upsert_call (clock k) p]\<rparr>)"
    by (simp add: save_one_def)
qed

text \<open>
  Two entities on a database that throws on the first and accepts the second: the second
  upsert is still made and stored, and the counts are one error and one saved.
\<close>

lemma picky_db_calls:
  "picky_db st (upsert_call t sample_property) = None"
  "picky_db st (upsert_call t later_property) = Some (prisma_upsert st (upsert_call t later_property))"
  by (simp_all add: picky_db_def reliable_db_def upsert_call_def sample_externalId later_externalId)

theorem saveProperties_accounts_for_every_entity_witness:
  "picky_db [] (upsert_call 7 sample_property) = None
   \<and> picky_db [] (upsert_call 7 later_property) = Some [(later_property, None)]
   \<and> map where_externalId (upserts (saveProperties picky_db (\<lambda>k. 7) [] [sample_property, later_property]))
       = [''DVF_2023-481516_k3j9x1q8z'', ''DVF_2023-481516_7wq2m5c0a'']
   \<and> errors (counts (saveProperties picky_db (\<lambda>k. 7) [] [sample_property, later_property])) = 1
   \<and> saved (counts (saveProperties picky_db (\<lambda>k. 7) [] [sample_property, later_property])) = 1
   \<and> db_store (saveProperties picky_db (\<lambda>k. 7) [] [sample_property, later_property])
       = [(later_property, None)]"
proof -
  have stored: "prisma_upsert [] (upsert_call t later_property) = [(later_property, None)]" for t
    by (simp add: prisma_upsert_def has_key_def upsert_call_def)
  have calls: "expected_calls (\<lambda>k. 7) [sample_property, later_property]
      = [upsert_call 7 sample_property, upsert_call 7 later_property]"
    by (simp add: expected_calls_def upt_rec)
  have keys: "map externalId [sample_property, later_property]
      = [''DVF_2023-481516_k3j9x1q8z'', ''DVF_2023-481516_7wq2m5c0a'']"
    by (simp add: sample_externalId later_externalId)
  let ?r = "saveProperties picky_db (\<lambda>k. 7) [] [sample_property, later_property]"
  note t = saveProperties_accounts_for_every_entity
    [where db = picky_db and clock = "\<lambda>k. 7" and st = "[]"
       and props = "[sample_property, later_property]" and s = empty_save_state
       and k = 0 and p = sample_property and rest = "[later_property]"
       and st' = "[]"]
  have sc: "successes picky_db [] [upsert_call 7 sample_property, upsert_call 7 later_property] = 1"
    by (simp add: picky_db_calls)
  have sa: "store_after picky_db [] [upsert_call 7 sample_property, upsert_call 7 later_property]
      = [(later_property, None)]"
    by (simp add: picky_db_calls stored)
  have "upserts ?r = expected_calls (\<lambda>k. 7) [sample_property, later_property]"
    using t by (rule conjunct1)
  moreover have "map where_externalId (expected_calls (\<lambda>k. 7) [sample_property, later_property])
      = map externalId [sample_property, later_property]"
    using t [THEN conjunct2] by (rule conjunct1)
  ultimately have a: "map where_externalId (upserts ?r)
      = [''DVF_2023-481516_k3j9x1q8z'', ''DVF_2023-481516_7wq2m5c0a'']"
    by (simp only: keys)
  have "saved (counts ?r)
      = successes picky_db [] (expected_calls (\<lambda>k. 7) [sample_property, later_property])"
    using t [THEN conjunct2, THEN conjunct2] by (rule conjunct1)
  then have b: "saved (counts ?r) = 1" by (simp only: calls sc)
  have "errors (counts ?r)
      = length [sample_property, later_property]
        - successes picky_db [] (expected_calls (\<lambda>k. 7) [sample_property, later_property])"
    using t [THEN conjunct2, THEN conjunct2, THEN conjunct2] by (rule conjunct1)
  then have "errors (counts ?r) = length [sample_property, later_property] - 1"
    by (simp only: calls sc)
  then have c: "errors (counts ?r) = 1" by simp
  have "db_store ?r
      = store_after picky_db [] (expected_calls (\<lambda>k. 7) [sample_property, later_property])"
    using t [THEN conjunct2, THEN conjunct2, THEN conjunct2, THEN conjunct2, THEN conjunct2]
    by (rule conjunct1)
  then have d: "db_store ?r = [(later_property, None)]" by (simp only: calls sa)
  from a b c d show ?thesis
    by (simp add: picky_db_calls stored)
qed

section \<open>Fetching\<close>













section \<open>The scheduler\<close>

lemma trigger_run_running:
  "isRunning (sched y) \<Longrightarrow> trigger_run y = y\<lparr>reports := reports y @ [IgnoredAlreadyRunning]\<rparr>"
  by (simp add: trigger_run_def runScraping_enter_def)

lemma trigger_run_idle:
  "\<not> isRunning (sched y) \<Longrightarrow>
   trigger_run y = y\<lparr>sched := (sched y)\<lparr>isRunning := True\<rparr>, in_flight := in_flight y + 1,
                      reports := reports y @ [RunStarted]\<rparr>"
  by (simp add: trigger_run_def runScraping_enter_def)

lemma step_trigger_running:
  assumes "isRunning (sched y)" "is_trigger e"
  shows "step y e = Some (y\<lparr>reports := reports y @ [refusal e]\<rparr>)"
  using assms
  by (cases e) (simp_all add: is_trigger_def refusal_def trigger_run_running scrape_handler_def getStatus_def)

lemma step_trigger_idle:
  assumes "\<not> isRunning (sched y)" "is_trigger e"
  shows "step y e = Some (y\<lparr>sched := (sched y)\<lparr>isRunning := True\<rparr>, in_flight := in_flight y + 1,
                            reports := reports y @ acceptance e\<rparr>)"
  using assms
  by (cases e) (simp_all add: is_trigger_def acceptance_def trigger_run_idle scrape_handler_def getStatus_def)

lemma exec_triggers_running:
  assumes "isRunning (sched y)" "list_all is_trigger ts"
  shows "exec y ts = Some (y\<lparr>reports := reports y @ map refusal ts\<rparr>)"
  using assms
proof (induction ts arbitrary: y)
  case Nil
  show ?case by simp
next
  case (Cons t ts)
  let ?y1 = "y\<lparr>reports := reports y @ [refusal t]\<rparr>"
  from Cons.prems have s: "step y t = Some ?y1" by (simp add: step_trigger_running)
  from Cons.prems have "exec ?y1 ts = Some (?y1\<lparr>reports := reports ?y1 @ map refusal ts\<rparr>)"
    by (intro Cons.IH) simp_all
  with s show ?case by simp
qed

lemma single_flight_step:
  assumes "single_flight y" "step y e = Some y'"
  shows "single_flight y'"
proof (cases e)
  case TimerFires
  with assms show ?thesis
    by (cases "isRunning (sched y)") (auto simp: single_flight_def trigger_run_running trigger_run_idle)
next
  case (ManualScrape hours)
  with assms show ?thesis
    by (cases "isRunning (sched y)")
      (auto simp: single_flight_def scrape_handler_def getStatus_def trigger_run_idle)
next
  case (RunSettles now r)
  with assms show ?thesis
    by (cases r) (auto simp: single_flight_def runScraping_settle_def split: if_splits)
qed

lemma single_flight_exec:
  assumes "single_flight y" "exec y es = Some y'"
  shows "single_flight y'"
  using assms
proof (induction es arbitrary: y)
  case Nil
  then show ?case by simp
next
  case (Cons e es)
  then obtain y1 where s: "step y e = Some y1" and r: "exec y1 es = Some y'"
    by (auto split: option.splits)
  from single_flight_step [OF Cons.prems(1) s] r show ?case by (rule Cons.IH)
qed

lemma single_flight_initially: "single_flight initial_system"
  by (simp add: single_flight_def initial_system_def new_scheduler_def)

text \<open>
  Claim C4: in every state the event loop can reach, at most one pipeline run is in flight,
  and one is in flight exactly while \<open>isRunning\<close> is set. While a run is in progress, any
  sequence of triggers (cron or \<open>POST /scrape\<close>) changes nothing but the trace, where each
  is reported as already running. From an idle scheduler, of any burst of triggers the first
  starts a run and all the others are turned away.
\<close>

theorem at_most_one_run_in_flight:
  assumes "exec initial_system es = Some y"
  shows "in_flight y \<le> 1 \<and> (isRunning (sched y) \<longleftrightarrow> in_flight y = 1)
     \<and> (isRunning (sched y) \<and> list_all is_trigger ts \<longrightarrow>
          exec y ts = Some (y\<lparr>reports := reports y @ map refusal ts\<rparr>))
     \<and> (\<not> isRunning (sched y) \<and> list_all is_trigger (t # ts) \<longrightarrow>
          (\<exists>y'. exec y (t # ts) = Some y' \<and> in_flight y' = 1 \<and> isRunning (sched y')
                \<and> reports y' = reports y @ acceptance t @ map refusal ts))"
proof -
  have sf: "single_flight y"
    using single_flight_exec [OF single_flight_initially assms] .
  then have a: "in_flight y \<le> 1 \<and> (isRunning (sched y) \<longleftrightarrow> in_flight y = 1)"
    by (simp add: single_flight_def split: if_splits)
  have b: "isRunning (sched y) \<and> list_all is_trigger ts \<longrightarrow>
          exec y ts = Some (y\<lparr>reports := reports y @ map refusal ts\<rparr>)"
    by (simp add: exec_triggers_running)
  have c: "\<not> isRunning (sched y) \<and> list_all is_trigger (t # ts) \<longrightarrow>
          (\<exists>y'. exec y (t # ts) = Some y' \<and> in_flight y' = 1 \<and> isRunning (sched y')
                \<and> reports y' = reports y @ acceptance t @ map refusal ts)"
  proof
    assume h: "\<not> isRunning (sched y) \<and> list_all is_trigger (t # ts)"
    let ?y1 = "y\<lparr>sched := (sched y)\<lparr>isRunning := True\<rparr>, in_flight := in_flight y + 1,
                 reports := reports y @ acceptance t\<rparr>"
    from h have s: "step y t = Some ?y1" by (simp add: step_trigger_idle)
    from h have "exec ?y1 ts = Some (?y1\<lparr>reports := reports ?y1 @ map refusal ts\<rparr>)"
      by (intro exec_triggers_running) simp_all
    with s have e: "exec y (t # ts) = Some (?y1\<lparr>reports := reports ?y1 @ map refusal ts\<rparr>)"
      by simp
    from sf h have "in_flight y = 0" by (simp add: single_flight_def)
    with e show "\<exists>y'. exec y (t # ts) = Some y' \<and> in_flight y' = 1 \<and> isRunning (sched y')
                \<and> reports y' = reports y @ acceptance t @ map refusal ts"
      by simp
  qed
  from a b c show ?thesis by blast
qed

theorem at_most_one_run_in_flight_witness:
  "exec initial_system [TimerFires] = Some busy_system
   \<and> in_flight busy_system \<le> 1
   \<and> exec busy_system [ManualScrape 9, TimerFires, ManualScrape 10]
       = Some (busy_system\<lparr>reports := [RunStarted, Reply409InProgress, IgnoredAlreadyRunning,
                                         Reply409InProgress]\<rparr>)"
proof -
  have h: "exec initial_system [TimerFires] = Some busy_system"
    by (simp add: initial_system_def busy_system_def new_scheduler_def trigger_run_def
        runScraping_enter_def)
  have r: "isRunning (sched busy_system) \<and> list_all is_trigger [ManualScrape 9, TimerFires, ManualScrape 10]"
    by (simp add: busy_system_def is_trigger_def)
  from at_most_one_run_in_flight [OF h, of "[ManualScrape 9, TimerFires, ManualScrape 10]"] h r
  show ?thesis by (simp add: refusal_def busy_system_def)
qed

section \<open>A failed run\<close>

text \<open>
  Claim C10: when the pipeline rejects, \<open>runScraping\<close> returns \<open>null\<close> and \<open>lastRun\<close> and
  \<open>lastResult\<close> are what they were, so \<open>getStatus\<close> reports the same two values; only the
  settling of a run that resolved changes either field.
\<close>

theorem failed_run_leaves_last_run_unchanged:
  "snd (runScraping now (Rejected msg) s) = None
   \<and> lastRun (fst (runScraping now (Rejected msg) s)) = lastRun s
   \<and> lastResult (fst (runScraping now (Rejected msg) s)) = lastResult s
   \<and> status_lastRun (getStatus hours (fst (runScraping now (Rejected msg) s)))
       = status_lastRun (getStatus hours s)
   \<and> status_lastResult (getStatus hours (fst (runScraping now (Rejected msg) s)))
       = status_lastResult (getStatus hours s)
   \<and> lastRun (fst (runScraping_settle now (Rejected msg) s)) = lastRun s
   \<and> lastResult (fst (runScraping_settle now (Rejected msg) s)) = lastResult s
   \<and> (step y e = Some y'
        \<and> (lastRun (sched y') \<noteq> lastRun (sched y) \<or> lastResult (sched y') \<noteq> lastResult (sched y))
       \<longrightarrow> (\<exists>t res. e = RunSettles t (Resolved res)))"
proof -
  have frame: "step y e = Some y'
        \<and> (lastRun (sched y') \<noteq> lastRun (sched y) \<or> lastResult (sched y') \<noteq> lastResult (sched y))
       \<longrightarrow> (\<exists>t res. e = RunSettles t (Resolved res))"
  proof (cases e)
    case TimerFires
    then show ?thesis
      by (auto simp: trigger_run_def runScraping_enter_def split: if_splits)
  next
    case (ManualScrape hours)
    then show ?thesis
      by (auto simp: scrape_handler_def trigger_run_def runScraping_enter_def split: if_splits)
  next
    case (RunSettles t r)
    then show ?thesis
      by (cases r) (auto simp: runScraping_settle_def split: if_splits)
  qed
  then show ?thesis
    by (simp add: runScraping_def runScraping_enter_def runScraping_settle_def getStatus_def)
qed

theorem failed_run_leaves_last_run_unchanged_witness:
  "step busy_system (RunSettles 1700000011500 (Resolved sample_summary)) \<noteq> None
   \<and> lastResult (sched (the (step busy_system (RunSettles 1700000011500 (Resolved sample_summary)))))
       \<noteq> lastResult (sched busy_system)
   \<and> (\<exists>t res. RunSettles 1700000011500 (Resolved sample_summary) = RunSettles t (Resolved res))"
proof -
  let ?e = "RunSettles 1700000011500 (Resolved sample_summary)"
  have s: "step busy_system ?e = Some (the (step busy_system ?e))"
    by (simp add: busy_system_def)
  have d: "lastResult (sched (the (step busy_system ?e))) \<noteq> lastResult (sched busy_system)"
    by (simp add: busy_system_def new_scheduler_def runScraping_settle_def)
  from failed_run_leaves_last_run_unchanged [of 0 "''''" new_scheduler 0 busy_system ?e "the (step busy_system ?e)"]
    s d show ?thesis by (simp add: busy_system_def)
qed

section \<open>Price distribution\<close>

lemma two_prices_last_bound:
  "bucket_max to_double 115940 (to_double (to_double 4015350 / 7)) 6 = 8871877720145919 / 2147483648"
  by (simp add: bucket_max_def double_eval Let_def)

lemma two_prices_counts:
  "map (\<lambda>i. length (filter (in_bucket to_double 115940 (to_double (to_double 4015350 / 7)) 7 i)
                       [115940, 4131290])) [0, 1, 2, 3, 4, 5, 6]
     = [1, 0, 0, 0, 0, 0, 0]"
  by (simp add: in_bucket_def bucket_min_def bucket_max_def double_eval Let_def)

lemma upt_seven: "[0 ..< 7] = [0, 1, 2, 3, 4, 5, 6]"
  by (simp add: upt_rec)

lemma count_make_bucket:
  "count (make_bucket fl prices mn bs n i) = length (filter (in_bucket fl mn bs n i) prices)"
  by (simp add: make_bucket_def Let_def)

lemma two_prices_distribution:
  "priceDistribution two_prices 7
     = Some (map (make_bucket to_double [115940, 4131290] 115940
                    (to_double (to_double 4015350 / 7)) 7) [0, 1, 2, 3, 4, 5, 6])"
  by (simp add: priceDistribution_def distribution_with_def two_prices_def upt_seven Let_def)

text \<open>
  Claim C7 at a concrete input: two sales at 115940 and 4131290 put into seven buckets.
  The upper bound of the last bucket, \<open>min + 7 * bucketSize\<close> in double arithmetic, falls
  below the maximum price, so the maximum is counted in no bucket and the counts sum to one
  for two prices.
\<close>

theorem maximum_price_lost_to_rounding:
  "priceDistribution two_prices 7 \<noteq> None
   \<and> map count (the (priceDistribution two_prices 7)) = [1, 0, 0, 0, 0, 0, 0]
   \<and> sum_list (map count (the (priceDistribution two_prices 7))) = 1
   \<and> length two_prices = 2
   \<and> bucket_max to_double 115940 (to_double (to_double (4131290 - 115940) / 7)) 6 < 4131290"
proof -
  have c: "map count (the (priceDistribution two_prices 7)) = [1, 0, 0, 0, 0, 0, 0]"
    using two_prices_counts by (simp add: two_prices_distribution count_make_bucket)
  have n: "priceDistribution two_prices 7 \<noteq> None"
    by (simp add: two_prices_distribution)
  have l: "length two_prices = 2"
    by (simp add: two_prices_def)
  show ?thesis
    by (simp add: c n l two_prices_last_bound)
qed

subsection \<open>In exact arithmetic the buckets partition the prices\<close>

lemma length_filter_below_split:
  fixes a b :: real
  assumes "a \<le> b"
  shows "length (filter (\<lambda>p. p < a) ps) + length (filter (\<lambda>p. a \<le> p \<and> p < b) ps)
         = length (filter (\<lambda>p. p < b) ps)"
  using assms by (induction ps) auto

lemma exact_inner_bucket:
  assumes "Suc i < n"
  shows "in_bucket exact mn bs n i p
         = (mn + real i * bs \<le> p \<and> p < mn + real (Suc i) * bs)"
  using assms by (auto simp: in_bucket_def bucket_min_def bucket_max_def exact_def algebra_simps)

lemma exact_last_bucket:
  "in_bucket exact mn bs (Suc i) i p
         = (mn + real i * bs \<le> p \<and> p \<le> mn + real (Suc i) * bs)"
  by (auto simp: in_bucket_def bucket_min_def bucket_max_def exact_def algebra_simps)

lemma exact_inner_buckets_count:
  assumes low: "\<forall>p \<in> set ps. mn \<le> p" and bs: "0 \<le> bs" and k: "k < n"
  shows "sum_list (map (\<lambda>i. length (filter (in_bucket exact mn bs n i) ps)) [0 ..< k])
         = length (filter (\<lambda>p. p < mn + real k * bs) ps)"
  using k
proof (induction k)
  case 0
  from low have "filter (\<lambda>p. p < mn) ps = []"
    by (auto simp: filter_empty_conv)
  then show ?case by simp
next
  case (Suc k)
  then have ih: "sum_list (map (\<lambda>i. length (filter (in_bucket exact mn bs n i) ps)) [0 ..< k])
         = length (filter (\<lambda>p. p < mn + real k * bs) ps)"
    by simp
  from bs have le: "mn + real k * bs \<le> mn + real (Suc k) * bs"
    by (simp add: algebra_simps)
  from Suc.prems have b: "in_bucket exact mn bs n k
        = (\<lambda>p. mn + real k * bs \<le> p \<and> p < mn + real (Suc k) * bs)"
    by (intro ext exact_inner_bucket)
  show ?case
    using length_filter_below_split [OF le, of ps] by (simp only: upt_Suc_append [OF le0] map_append
        sum_list_append list.map sum_list.Cons sum_list.Nil ih b)
qed

lemma sorted_hd_le: "sorted xs \<Longrightarrow> x \<in> set xs \<Longrightarrow> hd xs \<le> x"
  for xs :: "real list"
  by (cases xs) auto

lemma sorted_le_last: "sorted xs \<Longrightarrow> x \<in> set xs \<Longrightarrow> x \<le> last xs"
  for xs :: "real list"
  by (induction xs) auto

text \<open>
  With every operation exact, the bucket counts of a non-empty selection sum to its size and
  the maximum lies in the last bucket: the loss above comes from rounding alone.
\<close>

lemma exact_buckets_conserve:
  assumes ne: "selected \<noteq> []" and pos: "0 < buckets"
  shows "\<exists>dist. distribution_with exact selected buckets = Some dist
           \<and> length dist = buckets
           \<and> sum_list (map count dist) = length selected
           \<and> in_bucket exact (hd (sort selected))
                (exact (exact (last (sort selected) - hd (sort selected)) / real buckets))
                buckets (buckets - 1) (last (sort selected))"
proof -
  define prices where "prices = sort selected"
  define mn where "mn = hd prices"
  define mx where "mx = last prices"
  define bs where "bs = (mx - mn) / real buckets"
  obtain n where n: "buckets = Suc n" using pos by (cases buckets) auto
  have sorted: "sorted prices" and len: "length prices = length selected"
    by (simp_all add: prices_def)
  from ne have "set prices \<noteq> {}" by (simp add: prices_def)
  then have pne: "prices \<noteq> []" by auto
  have low: "\<forall>p \<in> set prices. mn \<le> p"
    using sorted by (simp add: mn_def sorted_hd_le)
  have high: "\<forall>p \<in> set prices. p \<le> mx"
    using sorted by (simp add: mx_def sorted_le_last)
  from pne have "hd prices \<in> set prices" by simp
  with high have "mn \<le> mx" by (simp add: mn_def)
  then have bs0: "0 \<le> bs" by (simp add: bs_def)
  have top: "mn + (1 + real n) * bs = mx"
    by (simp add: bs_def n)
  have inner: "sum_list (map (\<lambda>i. length (filter (in_bucket exact mn bs buckets i) prices)) [0 ..< n])
         = length (filter (\<lambda>p. p < mn + real n * bs) prices)"
    using low bs0 by (intro exact_inner_buckets_count) (simp_all add: n)
  have "filter (in_bucket exact mn bs buckets n) prices
        = filter (\<lambda>p. \<not> p < mn + real n * bs) prices"
    using high top by (intro filter_cong refl) (auto simp: n exact_last_bucket)
  then have lastc: "length (filter (in_bucket exact mn bs buckets n) prices)
        = length (filter (\<lambda>p. \<not> p < mn + real n * bs) prices)"
    by simp
  have total: "sum_list (map (\<lambda>i. length (filter (in_bucket exact mn bs buckets i) prices)) [0 ..< buckets])
        = length selected"
    using sum_length_filter_compl [of "\<lambda>p. p < mn + real n * bs" prices]
    by (simp add: n inner [unfolded n] lastc [unfolded n] len)
  have d: "distribution_with exact selected buckets
           = Some (map (make_bucket exact prices mn bs buckets) [0 ..< buckets])"
    using ne by (simp add: distribution_with_def Let_def prices_def mn_def mx_def bs_def exact_def)
  have cnt: "map count (map (make_bucket exact prices mn bs buckets) [0 ..< buckets])
        = map (\<lambda>i. length (filter (in_bucket exact mn bs buckets i) prices)) [0 ..< buckets]"
    by (simp add: count_make_bucket)
  have "mn + real n * bs \<le> mx"
    using bs0 unfolding top [symmetric] by (simp add: algebra_simps)
  then have inmax: "in_bucket exact mn bs buckets (buckets - 1) mx"
    using top by (simp add: n exact_last_bucket)
  have inmax': "in_bucket exact (hd (sort selected))
                (exact (exact (last (sort selected) - hd (sort selected)) / real buckets))
                buckets (buckets - 1) (last (sort selected))"
    using inmax by (simp add: exact_def prices_def mn_def mx_def bs_def)
  have sum: "sum_list (map count (map (make_bucket exact prices mn bs buckets) [0 ..< buckets]))
             = length selected"
    by (simp only: cnt total)
  have size: "length (map (make_bucket exact prices mn bs buckets) [0 ..< buckets]) = buckets"
    by simp
  from d size sum inmax' show ?thesis by blast
qed

section \<open>Geo-radius search\<close>

subsection \<open>Bounds for pi\<close>

lemma arctan_upper_1:
  assumes "0 \<le> x"
  shows "arctan x \<le> x"
proof -
  have "(\<lambda>t. t - arctan t) 0 \<le> (\<lambda>t. t - arctan t) x"
  proof (rule DERIV_nonneg_imp_nondecreasing [OF assms])
    fix t :: real
    have "((\<lambda>t. t - arctan t) has_real_derivative (1 - inverse (1 + t\<^sup>2))) (at t)"
      by (auto intro!: derivative_eq_intros)
    moreover have "0 \<le> 1 - inverse (1 + t\<^sup>2)"
      by (simp add: inverse_le_1_iff)
    ultimately show "\<exists>y. ((\<lambda>t. t - arctan t) has_real_derivative y) (at t) \<and> 0 \<le> y"
      by blast
  qed
  then show ?thesis by simp
qed

lemma arctan_lower_3:
  assumes "0 \<le> x"
  shows "x - x ^ 3 / 3 \<le> arctan x"
proof -
  let ?f = "\<lambda>t::real. arctan t - t + t ^ 3 / 3"
  have "?f 0 \<le> ?f x"
  proof (rule DERIV_nonneg_imp_nondecreasing [OF assms])
    fix t :: real
    have d: "(?f has_real_derivative (inverse (1 + t\<^sup>2) - 1 + t\<^sup>2)) (at t)"
      by (auto intro!: derivative_eq_intros)
    have pos: "0 < 1 + t\<^sup>2" by (simp add: add_pos_nonneg)
    have "inverse (1 + t\<^sup>2) - 1 + t\<^sup>2 = t ^ 4 / (1 + t\<^sup>2)"
      using pos by (simp add: field_simps power2_eq_square power4_eq_xxxx)
    moreover have "0 \<le> t ^ 4 / (1 + t\<^sup>2)"
      using pos by simp
    ultimately have "0 \<le> inverse (1 + t\<^sup>2) - 1 + t\<^sup>2" by simp
    with d show "\<exists>y. (?f has_real_derivative y) (at t) \<and> 0 \<le> y"
      by blast
  qed
  then show ?thesis by simp
qed

lemma arctan_upper_5:
  assumes "0 \<le> x"
  shows "arctan x \<le> x - x ^ 3 / 3 + x ^ 5 / 5"
proof -
  let ?f = "\<lambda>t::real. t - t ^ 3 / 3 + t ^ 5 / 5 - arctan t"
  have "?f 0 \<le> ?f x"
  proof (rule DERIV_nonneg_imp_nondecreasing [OF assms])
    fix t :: real
    have d: "(?f has_real_derivative (1 - t\<^sup>2 + t ^ 4 - inverse (1 + t\<^sup>2))) (at t)"
      by (auto intro!: derivative_eq_intros)
    have pos: "0 < 1 + t\<^sup>2" by (simp add: add_pos_nonneg)
    have "1 - t\<^sup>2 + t ^ 4 - inverse (1 + t\<^sup>2) = t ^ 6 / (1 + t\<^sup>2)"
      using pos
      by (simp add: field_simps power2_eq_square power4_eq_xxxx)
        (simp add: power_numeral_reduce algebra_simps)
    moreover have "0 \<le> t ^ 6 / (1 + t\<^sup>2)"
      using pos zero_le_even_power [of 6 t] by simp
    ultimately have "0 \<le> 1 - t\<^sup>2 + t ^ 4 - inverse (1 + t\<^sup>2)" by simp
    with d show "\<exists>y. (?f has_real_derivative y) (at t) \<and> 0 \<le> y"
      by blast
  qed
  then show ?thesis by simp
qed

lemma pi_bounds: "157 / 50 < pi" "pi < 1571 / 500"
proof -
  have a5l: "74 / 375 \<le> arctan (1 / 5)"
    using arctan_lower_3 [of "1 / 5"] by (simp add: power_divide)
  have a5u: "arctan (1 / 5) \<le> 9253 / 46875"
    using arctan_upper_5 [of "1 / 5"] by (simp add: power_divide)
  have a239u: "arctan (1 / 239) \<le> 1 / 239"
    using arctan_upper_1 [of "1 / 239"] by simp
  have a239l: "171362 / 40955757 \<le> arctan (1 / 239)"
    using arctan_lower_3 [of "1 / 239"] by (simp add: power_divide)
  have m: "pi = 4 * (4 * arctan (1 / 5) - arctan (1 / 239))"
    using machin by simp
  from a5l a239u show "157 / 50 < pi" unfolding m by argo
  from a5u a239l show "pi < 1571 / 500" unfolding m by argo
qed


subsection \<open>Distances\<close>

lemma unit_halves:
  fixes x :: real
  assumes "- 1 \<le> x" "x \<le> 1"
  shows "0 \<le> (1 - x) / 2" "(1 - x) / 2 \<le> 1" "0 \<le> (1 + x) / 2" "(1 + x) / 2 \<le> 1"
  using assms by simp_all

text \<open>The argument of each square root in the distance lies between 0 and 1.\<close>

lemma haversine_a_range:
  "0 \<le> haversine_a centerLat centerLon pLat pLon \<and> haversine_a centerLat centerLon pLat pLon \<le> 1"
proof -
  define u where "u = centerLat * pi / 180"
  define v where "v = pLat * pi / 180"
  define h where "h = (v - u) / 2"
  define w where "w = (pLon - centerLon) * pi / 180 / 2"
  define t where "t = (sin w)\<^sup>2"
  define A where "A = (1 - cos (2 * h)) / 2"
  define B where "B = (1 + cos (v + u)) / 2"
  have "(sin w)\<^sup>2 + (cos w)\<^sup>2 = 1" by simp
  moreover have "0 \<le> (cos w)\<^sup>2" by simp
  ultimately have "(sin w)\<^sup>2 \<le> 1" by linarith
  then have t: "0 \<le> t" "t \<le> 1"
    by (simp_all add: t_def)
  have A: "0 \<le> A" "A \<le> 1"
    unfolding A_def by (rule unit_halves; simp)+
  have B: "0 \<le> B" "B \<le> 1"
    unfolding B_def by (rule unit_halves; simp)+
  have half: "(sin h)\<^sup>2 = A"
    by (simp add: A_def cos_double_sin)
  have "2 * h = v - u" by (simp add: h_def)
  then have c2h: "cos (2 * h) = cos v * cos u + sin v * sin u"
    by (simp only: cos_diff)
  have dlat: "(pLat - centerLat) * pi / 180 / 2 = h"
    by (simp add: h_def u_def v_def left_diff_distrib diff_divide_distrib)
  have "haversine_a centerLat centerLon pLat pLon
        = sin ((pLat - centerLat) * pi / 180 / 2) * sin ((pLat - centerLat) * pi / 180 / 2)
          + cos u * cos v * sin w * sin w"
    by (simp only: haversine_a_def u_def v_def w_def Let_def)
  also have "\<dots> = (sin h)\<^sup>2 + cos u * cos v * t"
    by (simp only: dlat t_def power2_eq_square mult.assoc)
  also have "\<dots> = A + cos u * cos v * t" by (simp only: half)
  also have "\<dots> = (1 - t) * A + t * B"
  proof -
    have Ae: "A = (1 - (cos v * cos u + sin v * sin u)) / 2"
      by (simp only: A_def c2h)
    have Be: "B = (1 + (cos v * cos u - sin v * sin u)) / 2"
      by (simp only: B_def cos_add)
    show ?thesis by (simp add: Ae Be field_simps)
  qed
  finally have a: "haversine_a centerLat centerLon pLat pLon = (1 - t) * A + t * B" .
  have "0 \<le> (1 - t) * A + t * B"
    using t A B by (intro add_nonneg_nonneg mult_nonneg_nonneg) simp_all
  moreover have "(1 - t) * A + t * B \<le> (1 - t) * 1 + t * 1"
    using t A B by (intro add_mono mult_left_mono) simp_all
  ultimately show ?thesis by (simp add: a)
qed

lemma distance_at_centre: "distance la lo la lo = 0"
  by (simp add: distance_def haversine_a_def atan2_def)

lemma distanceKm_at_centre:
  "row_latitude p = Some la \<Longrightarrow> row_longitude p = Some lo \<Longrightarrow> distanceKm la lo p = 0"
  by (simp add: distanceKm_def distance_at_centre round_half_up_def)

text \<open>Due north, by less than half a turn, the distance is the arc of the meridian.\<close>

lemma distance_due_north:
  assumes "0 \<le> d" "d < 180"
  shows "distance la lo (la + d) lo = 6371 * (d * pi / 180)"
proof -
  define h where "h = d * pi / 180 / 2"
  from assms have h0: "0 \<le> h" and h1: "h < pi / 2"
    by (simp_all add: h_def)
  then have c: "0 < cos h" by (intro cos_gt_zero_pi) simp_all
  from h0 h1 have s: "0 \<le> sin h"
    by (intro sin_ge_zero) simp_all
  have a: "haversine_a la lo (la + d) lo = (sin h)\<^sup>2"
    by (simp add: haversine_a_def h_def power2_eq_square)
  have "1 - (sin h)\<^sup>2 = (cos h)\<^sup>2"
    by (simp add: cos_squared_eq)
  with c have sq: "sqrt (1 - (sin h)\<^sup>2) = cos h" by simp
  from s have sq': "sqrt ((sin h)\<^sup>2) = sin h" by simp
  have "atan2 (sin h) (cos h) = arctan (tan h)"
    using c by (simp add: atan2_def tan_def)
  also have "\<dots> = h" using h0 h1 by (intro arctan_tan) simp_all
  finally have "atan2 (sin h) (cos h) = h" .
  then have "distance la lo (la + d) lo = 6371 * (2 * h)"
    by (simp only: distance_def a sq sq' Let_def)
  then show ?thesis by (simp add: h_def)
qed


subsection \<open>The handler\<close>

lemma geoSearch_set:
  "set (geoSearch c l r f tbl)
     = {(p, distanceKm c l p) | p. p \<in> set (findMany c l r f tbl) \<and> distanceKm c l p \<le> r}"
  by (auto simp: geoSearch_def Let_def)

lemma geoSearch_sorted: "sorted (map snd (geoSearch c l r f tbl))"
  by (simp add: geoSearch_def Let_def sorted_sort_key)

lemma centre_in_box:
  assumes "0 < r" "- 90 \<le> c" "c \<le> 90"
  shows "lat_in_box c r c" and "lon_in_box c l r l"
proof -
  from assms show "lat_in_box c r c" by (simp add: lat_in_box_def)
  have "(- 90) * pi \<le> c * pi"
    using assms(2) by (intro mult_right_mono) simp_all
  moreover have "c * pi \<le> 90 * pi"
    using assms(3) by (intro mult_right_mono) simp_all
  ultimately have "- 90 * pi \<le> c * pi" "c * pi \<le> 90 * pi"
    by simp_all
  then have "- (pi / 2) \<le> c * pi / 180" "c * pi / 180 \<le> pi / 2"
    by simp_all
  then have "0 \<le> cos (c * pi / 180)" by (rule cos_ge_zero)
  with assms show "lon_in_box c l r l"
    by (auto simp: lon_in_box_def Let_def)
qed

lemma no_price_bounds: "minPrice f = None \<Longrightarrow> maxPrice f = None \<Longrightarrow> price_condition f p"
  by (simp add: price_condition_def truthy_num_def)

text \<open>
  Claim C8, as the code has it: every returned row is one of the first \<open>limit\<close> rows of the
  table that lie in the bounding box and match the filters, it carries its distance rounded
  to two decimals, and that rounded distance is at most the radius; the results are sorted
  ascending by the rounded distance; a row at the centre that is among the rows found is
  returned, with distance 0, for any positive radius; a row whose rounded distance exceeds
  the radius is never returned; and a point at the centre lies in the bounding box for any
  positive radius and any latitude of the centre from -90 to 90.
\<close>

theorem geo_search_boundary:
  "(\<forall>pd \<in> set (geoSearch c l r f tbl).
       fst pd \<in> set (findMany c l r f tbl) \<and> snd pd = distanceKm c l (fst pd) \<and> snd pd \<le> r)
   \<and> sorted (map snd (geoSearch c l r f tbl))
   \<and> (0 < r \<and> p \<in> set (findMany c l r f tbl) \<and> row_latitude p = Some c \<and> row_longitude p = Some l
        \<longrightarrow> (p, 0) \<in> set (geoSearch c l r f tbl))
   \<and> (r < distanceKm c l q \<longrightarrow> q \<notin> fst ` set (geoSearch c l r f tbl))
   \<and> (0 < r \<and> - 90 \<le> c \<and> c \<le> 90 \<longrightarrow> lat_in_box c r c \<and> lon_in_box c l r l)"
proof (intro conjI impI ballI)
  fix pd assume "pd \<in> set (geoSearch c l r f tbl)"
  then show "fst pd \<in> set (findMany c l r f tbl)" "snd pd = distanceKm c l (fst pd)" "snd pd \<le> r"
    by (auto simp: geoSearch_set)
next
  show "sorted (map snd (geoSearch c l r f tbl))" by (rule geoSearch_sorted)
next
  assume "0 < r \<and> p \<in> set (findMany c l r f tbl) \<and> row_latitude p = Some c \<and> row_longitude p = Some l"
  then show "(p, 0) \<in> set (geoSearch c l r f tbl)"
    using distanceKm_at_centre [of p c l] by (auto simp: geoSearch_set)
next
  assume "r < distanceKm c l q"
  then show "q \<notin> fst ` set (geoSearch c l r f tbl)"
    by (auto simp: geoSearch_set)
next
  assume "0 < r \<and> - 90 \<le> c \<and> c \<le> 90"
  then show "lat_in_box c r c" "lon_in_box c l r l"
    by (simp_all add: centre_in_box)
qed

subsection \<open>Around Paris\<close>

lemma north_distance:
  "distance paris_lat paris_lon north_lat paris_lon = 6371 * (45 / 1000 * pi / 180)"
proof -
  have "north_lat = paris_lat + 45 / 1000" by (simp add: north_lat_def paris_lat_def)
  then show ?thesis using distance_due_north [of "45 / 1000" paris_lat paris_lon] by simp
qed

lemma far_distance:
  "distance paris_lat paris_lon far_lat paris_lon = 6371 * (50 / 1000 * pi / 180)"
proof -
  have "far_lat = paris_lat + 50 / 1000" by (simp add: far_lat_def paris_lat_def)
  then show ?thesis using distance_due_north [of "50 / 1000" paris_lat paris_lon] by simp
qed

lemma north_beyond_radius: "5 < distance paris_lat paris_lon north_lat paris_lon"
  using pi_bounds(1) by (simp add: north_distance)

lemma north_distanceKm: "distanceKm paris_lat paris_lon north_row = 5"
proof -
  have "round_half_up (6371 * (45 / 1000 * pi / 180) * 100) = 500"
    using pi_bounds by (simp add: round_half_up_def floor_eq_iff)
  then show ?thesis
    by (simp add: distanceKm_def north_row_def north_distance)
qed

lemma far_distanceKm: "distanceKm paris_lat paris_lon far_row = 556 / 100"
proof -
  have "round_half_up (6371 * (50 / 1000 * pi / 180) * 100) = 556"
    using pi_bounds by (simp add: round_half_up_def floor_eq_iff)
  then show ?thesis
    by (simp add: distanceKm_def far_row_def north_row_def far_distance)
qed

lemma paris_lon_in_box: "lon_in_box paris_lat paris_lon 5 paris_lon"
  by (rule centre_in_box) (simp_all add: paris_lat_def)

lemma north_row_found: "where_clause paris_lat paris_lon 5 limit_one north_row"
  using paris_lon_in_box
  by (simp add: where_clause_def north_row_def limit_one_def truthy_str_def no_price_bounds)
    (simp add: lat_in_box_def paris_lat_def north_lat_def)

lemma centre_row_found: "where_clause paris_lat paris_lon 5 limit_one centre_row"
  using paris_lon_in_box
  by (simp add: where_clause_def centre_row_def limit_one_def truthy_str_def no_price_bounds)
    (simp add: lat_in_box_def paris_lat_def)

text \<open>
  Five kilometres around the centre of Paris, one result asked for: the row 0.045 degrees to
  the north is a little over five kilometres away and is returned, since its distance rounds
  to 5.00, while the row at the centre itself, which passes the query, is cut off by the
  limit and is not returned.
\<close>

theorem geo_search_counterexample:
  "5 < distance paris_lat paris_lon north_lat paris_lon
   \<and> row_latitude north_row = Some north_lat \<and> row_longitude north_row = Some paris_lon
   \<and> row_latitude centre_row = Some paris_lat \<and> row_longitude centre_row = Some paris_lon
   \<and> distance paris_lat paris_lon paris_lat paris_lon = 0
   \<and> where_clause paris_lat paris_lon 5 limit_one centre_row
   \<and> geoSearch paris_lat paris_lon 5 limit_one [north_row, centre_row] = [(north_row, 5)]"
proof -
  have found: "findMany paris_lat paris_lon 5 limit_one [north_row, centre_row] = [north_row]"
    using north_row_found by (simp add: findMany_def take_count_def limit_one_def)
  have "geoSearch paris_lat paris_lon 5 limit_one [north_row, centre_row] = [(north_row, 5)]"
    by (simp add: geoSearch_def found north_distanceKm Let_def)
  then show ?thesis
    using north_beyond_radius centre_row_found
    by (simp add: distance_at_centre) (simp add: north_row_def centre_row_def)
qed

theorem geo_search_boundary_witness:
  "(centre_row, 0) \<in> set (geoSearch paris_lat paris_lon 5 limit_one [centre_row])
   \<and> far_row \<notin> fst ` set (geoSearch paris_lat paris_lon 5 limit_one [centre_row, far_row])
   \<and> lat_in_box paris_lat 5 paris_lat \<and> lon_in_box paris_lat paris_lon 5 paris_lon
   \<and> sorted (map snd (geoSearch paris_lat paris_lon 5 limit_one [centre_row]))"
proof -
  have found: "centre_row \<in> set (findMany paris_lat paris_lon 5 limit_one [centre_row])"
    using centre_row_found by (simp add: findMany_def take_count_def limit_one_def)
  have at: "row_latitude centre_row = Some paris_lat \<and> row_longitude centre_row = Some paris_lon"
    by (simp add: centre_row_def)
  have far: "(5::real) < distanceKm paris_lat paris_lon far_row"
    by (simp add: far_distanceKm)
  have range: "(0::real) < 5 \<and> - 90 \<le> paris_lat \<and> paris_lat \<le> 90"
    by (simp add: paris_lat_def)
  from geo_search_boundary [of paris_lat paris_lon 5 limit_one "[centre_row]" centre_row far_row]
    geo_search_boundary [of paris_lat paris_lon 5 limit_one "[centre_row, far_row]" centre_row far_row]
    found at far range
  show ?thesis by simp
qed

end
